theory Spec2Isabelle
  imports Complex_Main "HOL-Library.Multiset" "HOL-Library.Product_Lexorder"
begin

section \<open>Harvesting: checkpoint, backoff and the page loop (scrape_poems.py)\<close>

subsection \<open>Checkpoint file and resume policy\<close>

text \<open>
  The value \<open>json.loads\<close> returns. A JSON number without fraction or exponent is a
  Python \<open>int\<close>, any other number a \<open>float\<close> (its value is never inspected here).
  A dict is given by its items; the keys of a Python dict are distinct.
\<close>

datatype json =
    JNull
  | JBool bool
  | JInt int
  | JFloat
  | JStr string
  | JArr "json list"
  | JObj "(string \<times> json) list"





subsection \<open>Backoff\<close>

text \<open>
  A Python float is modelled by the real number it holds, a finite double. \<open>fl\<close>
  rounds a real number to a double, and every float operation gives the rounded exact
  result. Of \<open>fl\<close> only this is used: it keeps the order, it leaves a double as it
  is, and 0 and 60 are doubles. A product beyond the range of doubles is infinite in
  Python and stays finite here; under \<open>min\<close> with 60 that makes no difference for a
  delay that is not negative.
\<close>

definition rounding :: "(real \<Rightarrow> real) \<Rightarrow> bool" where
  "rounding fl = (mono fl \<and> (\<forall>x. fl (fl x) = fl x) \<and> fl 0 = 0 \<and> fl 60 = 60)"

text \<open>
  \<open>random.uniform(a, b)\<close> is \<open>a + (b - a) * random()\<close>; the draw \<open>u\<close> of
  \<open>random()\<close> is an argument.
\<close>

definition uniform :: "(real \<Rightarrow> real) \<Rightarrow> real \<Rightarrow> real \<Rightarrow> real \<Rightarrow> real" where
  "uniform fl a b u = fl (a + fl (fl (b - a) * u))"

text \<open>
  \<open>2 ** k\<close> for an integer \<open>k\<close>: an integer for \<open>k \<ge> 0\<close>, which the product with
  a float converts to a float, and a float for negative \<open>k\<close>. The conversion raises
  OverflowError from \<open>2 ** 1024\<close> on; below, a power of two is a double.
\<close>

datatype backoff_error = OverflowError

definition pow2 :: "(real \<Rightarrow> real) \<Rightarrow> int \<Rightarrow> real" where
  "pow2 fl k = (if k \<ge> 0 then 2 ^ nat k else fl (1 / 2 ^ nat (- k)))"

text \<open>
  The wait the Retry-After header gives, if any. The response is \<open>None\<close> or carries
  \<open>headers.get("Retry-After")\<close>; \<open>pyfloat\<close> is Python's \<open>float\<close> on strings, \<open>None\<close> where
  it raises ValueError. An empty header value is falsy.
\<close>

definition retry_after_wait :: "(string \<Rightarrow> real option) \<Rightarrow> string option option \<Rightarrow> real option" where
  "retry_after_wait pyfloat response =
     (case response of
        None \<Rightarrow> None
      | Some None \<Rightarrow> None
      | Some (Some retry_after) \<Rightarrow>
          if retry_after = [] then None
          else (case pyfloat retry_after of
                  None \<Rightarrow> None
                | Some v \<Rightarrow> Some (max v 0)))"

definition compute_backoff_seconds ::
  "(real \<Rightarrow> real) \<Rightarrow> (string \<Rightarrow> real option) \<Rightarrow> string option option \<Rightarrow> int \<Rightarrow> real \<Rightarrow> real
   \<Rightarrow> backoff_error + real" where
  "compute_backoff_seconds fl pyfloat response attempt base_delay u =
     (case retry_after_wait pyfloat response of
        Some w \<Rightarrow> Inr w
      | None \<Rightarrow>
          if attempt - 1 \<ge> 1024 then Inl OverflowError
          else
            (let exp = min 60 (fl (base_delay * pow2 fl (attempt - 1)));
                 jitter = uniform fl 0 (fl (fl (0.5 * base_delay) + fl 0.1)) u
             in Inr (fl (exp + jitter))))"

text \<open>
  No usable Retry-After header: no response, no header, an empty header, or a header
  that \<open>float\<close> rejects.
\<close>

definition no_retry_after :: "(string \<Rightarrow> real option) \<Rightarrow> string option option \<Rightarrow> bool" where
  "no_retry_after pyfloat response =
     (response = None \<or> response = Some None \<or> response = Some (Some [])
      \<or> (\<exists>retry_after. response = Some (Some retry_after) \<and> pyfloat retry_after = None))"

subsection \<open>The page loop\<close>

text \<open>
  What the loop does to the outside world, in order. Fetching and parsing a page are
  arguments: \<open>fetch page\<close> is the HTML, or \<open>None\<close> when \<open>fetch_html_with_retries\<close> raises;
  \<open>parse html page\<close> is the rows, or \<open>None\<close> when \<open>parse_poem_rows\<close> raises. Either
  exception leaves \<open>main\<close>.
\<close>

datatype 'row event =
    Fetch int
  | Append int "'row list"
  | SaveCheckpoint int
  | Sleep real

datatype harvest_error = FetchFailed int | TableNotFound int

fun page_loop ::
  "(int \<Rightarrow> string option) \<Rightarrow> (string \<Rightarrow> int \<Rightarrow> 'row list option) \<Rightarrow> real \<Rightarrow>
   int list \<Rightarrow> 'row event list \<Rightarrow> harvest_error \<times> 'row event list + 'row event list" where
  "page_loop fetch parse delay [] tr = Inr tr"
| "page_loop fetch parse delay (page # pages) tr =
     (case fetch page of
        None \<Rightarrow> Inl (FetchFailed page, tr @ [Fetch page])
      | Some html \<Rightarrow>
          (case parse html page of
             None \<Rightarrow> Inl (TableNotFound page, tr @ [Fetch page])
           | Some rows \<Rightarrow>
               page_loop fetch parse delay pages
                 (tr @ [Fetch page, Append page rows, SaveCheckpoint (page + 1)]
                     @ (if delay > 0 then [Sleep delay] else []))))"

text \<open>\<open>for page in range(start_page, args.end_page + 1)\<close>, from an empty trace.\<close>

definition harvest ::
  "(int \<Rightarrow> string option) \<Rightarrow> (string \<Rightarrow> int \<Rightarrow> 'row list option) \<Rightarrow> real \<Rightarrow>
   int \<Rightarrow> int \<Rightarrow> harvest_error \<times> 'row event list + 'row event list" where
  "harvest fetch parse delay start_page end_page =
     page_loop fetch parse delay [start_page..end_page] []"

text \<open>The events of one page that is fetched and parsed.\<close>

definition page_events ::
  "(int \<Rightarrow> string option) \<Rightarrow> (string \<Rightarrow> int \<Rightarrow> 'row list option) \<Rightarrow> real \<Rightarrow> int \<Rightarrow> 'row event list" where
  "page_events fetch parse delay page =
     [Fetch page, Append page (the (parse (the (fetch page)) page)), SaveCheckpoint (page + 1)]
       @ (if delay > 0 then [Sleep delay] else [])"

definition page_ok ::
  "(int \<Rightarrow> string option) \<Rightarrow> (string \<Rightarrow> int \<Rightarrow> 'row list option) \<Rightarrow> int \<Rightarrow> bool" where
  "page_ok fetch parse page =
     (case fetch page of None \<Rightarrow> False | Some html \<Rightarrow> parse html page \<noteq> None)"

section \<open>Text primitives\<close>

text \<open>
  Texts are ASCII strings: a \<open>char\<close> is a code point below 128, and the classes are
  those of Python's \<open>str\<close> methods and of \<open>re\<close> on that range. Whitespace
  (\<open>str.isspace\<close>, \<open>\s\<close>) is tab, line feed, vertical tab, form feed, carriage return,
  the separators 28 to 31 and the space.
\<close>

definition is_space :: "char \<Rightarrow> bool" where
  "is_space c = (let n = (of_char c :: nat) in (9 \<le> n \<and> n \<le> 13) \<or> (28 \<le> n \<and> n \<le> 32))"

definition is_digit :: "char \<Rightarrow> bool" where
  "is_digit c = (let n = (of_char c :: nat) in 48 \<le> n \<and> n \<le> 57)"

definition is_upper :: "char \<Rightarrow> bool" where
  "is_upper c = (let n = (of_char c :: nat) in 65 \<le> n \<and> n \<le> 90)"

definition is_alpha :: "char \<Rightarrow> bool" where
  "is_alpha c = (let n = (of_char c :: nat) in (65 \<le> n \<and> n \<le> 90) \<or> (97 \<le> n \<and> n \<le> 122))"

text \<open>The class \<open>\w\<close>: letters, digits and the underscore.\<close>

definition is_word :: "char \<Rightarrow> bool" where
  "is_word c = (is_alpha c \<or> is_digit c \<or> c = CHR ''_'')"

definition lower_char :: "char \<Rightarrow> char" where
  "lower_char c = (if is_upper c then char_of (of_char c + (32::nat)) else c)"

definition lower :: "string \<Rightarrow> string" where
  "lower s = map lower_char s"

text \<open>\<open>str.strip()\<close>.\<close>

definition strip :: "string \<Rightarrow> string" where
  "strip s = rev (dropWhile is_space (rev (dropWhile is_space s)))"

text \<open>\<open>s.startswith(p)\<close> and \<open>p in s\<close>.\<close>

fun startswith :: "string \<Rightarrow> string \<Rightarrow> bool" where
  "startswith s [] = True"
| "startswith [] (p # ps) = False"
| "startswith (c # cs) (p # ps) = (c = p \<and> startswith cs ps)"

fun contains :: "string \<Rightarrow> string \<Rightarrow> bool" where
  "contains [] p = (p = [])"
| "contains (c # cs) p = (startswith (c # cs) p \<or> contains cs p)"



section \<open>Shortlisting (shortlist_poems.py)\<close>

subsection \<open>Loading the corpus\<close>



text \<open>The dict \<open>load_poems\<close> appends for a row it keeps.\<close>

record poem =
  title :: string
  link :: string
  lines :: int
  views :: int








subsection \<open>The candidate pool\<close>

text \<open>
  \<open>list.sort(key=..., reverse=True)\<close>: CPython reverses the list, sorts it stably in
  ascending order of the key, and reverses the result, so that equal keys keep their
  order. Tuples compare lexicographically.
\<close>

definition sort_reverse :: "('a \<Rightarrow> 'k::linorder) \<Rightarrow> 'a list \<Rightarrow> 'a list" where
  "sort_reverse key xs = rev (sort_key key (rev xs))"

definition rough_pool :: "poem list \<Rightarrow> poem list" where
  "rough_pool all_poems =
     sort_reverse (\<lambda>row. (views row, - lines row))
       (filter (\<lambda>row. 8 \<le> lines row \<and> lines row \<le> 60) all_poems)"

text \<open>The two orders on rows: by views descending, ties by lines descending or ascending.\<close>

definition views_desc_lines_desc :: "poem \<Rightarrow> poem \<Rightarrow> bool" where
  "views_desc_lines_desc a b = (views a > views b \<or> (views a = views b \<and> lines a \<ge> lines b))"

definition views_desc_lines_asc :: "poem \<Rightarrow> poem \<Rightarrow> bool" where
  "views_desc_lines_asc a b = (views a > views b \<or> (views a = views b \<and> lines a \<le> lines b))"

subsection \<open>Scoring a text\<close>

text \<open>\<open>re.sub(r"\s+", " ", s)\<close>: every run of whitespace becomes one space.\<close>

function collapse_ws :: "string \<Rightarrow> string" where
  "collapse_ws [] = []"
| "collapse_ws (c # cs) =
     (if is_space c then CHR '' '' # collapse_ws (dropWhile is_space cs)
      else c # collapse_ws cs)"
  by pat_completeness auto
termination
  by (relation "measure length") (auto simp: less_Suc_eq_le length_dropWhile_le)

text \<open>\<open>len(re.findall(r"\w+", s))\<close>: the number of maximal runs of word characters.\<close>

function count_words :: "string \<Rightarrow> nat" where
  "count_words [] = 0"
| "count_words (c # cs) =
     (if is_word c then Suc (count_words (dropWhile is_word cs)) else count_words cs)"
  by pat_completeness auto
termination
  by (relation "measure length") (auto simp: less_Suc_eq_le length_dropWhile_le)

definition normalize_for_difficulty :: "string \<Rightarrow> string" where
  "normalize_for_difficulty text =
     strip (collapse_ws (filter (\<lambda>c. is_word c \<or> is_space c) text))"

definition score_text :: "string \<Rightarrow> int \<times> int" where
  "score_text text =
     (let normalized = normalize_for_difficulty text
      in (int (length normalized), int (count_words normalized)))"

subsection \<open>Baseline bands\<close>

datatype py_error = ValueError | StatisticsError

text \<open>
  \<open>statistics.quantiles(data, n=n, method="inclusive")\<close> of the standard library, on
  sorted data: with \<open>m = len(data) - 1\<close>, the cut point \<open>i\<close> is
  \<open>(data[j] * (n - delta) + data[j + 1] * delta) / n\<close> where
  \<open>j, delta = divmod(i * m, n)\<close>. Fewer than two data points raise StatisticsError
  (up to Python 3.12). The quotient of two integers is a float; it is modelled by the
  exact quotient, which \<open>int\<close> truncates to the same integer for the lengths of texts.
\<close>

definition quantiles_inclusive :: "int list \<Rightarrow> nat \<Rightarrow> py_error + real list" where
  "quantiles_inclusive data n =
     (let ld = length data in
      if ld < 2 then Inl StatisticsError
      else
        (let m = ld - 1 in
         Inr (map (\<lambda>i. let j = (i * m) div n; delta = (i * m) mod n
                        in of_int (data ! j * int (n - delta) + data ! (j + 1) * int delta)
                             / of_int (int n))
                  [1..<n])))"

text \<open>\<open>int(x)\<close> on a number: truncation towards zero.\<close>

definition py_int :: "real \<Rightarrow> int" where
  "py_int q = (if q \<ge> 0 then \<lfloor>q\<rfloor> else \<lceil>q\<rceil>)"

text \<open>\<open>min\<close> and \<open>max\<close> of a list that is not empty.\<close>

fun list_min :: "int list \<Rightarrow> int" where
  "list_min (x # xs) = fold min xs x"

fun list_max :: "int list \<Rightarrow> int" where
  "list_max (x # xs) = fold max xs x"

datatype band_name = Easy | Medium | Hard

type_synonym band = "(int \<times> int) \<times> (int \<times> int)"

text \<open>
  \<open>load_baseline_ranges\<close> from the line \<open>metrics = ...\<close> on. The result is the dict
  given by its items, in insertion order.
\<close>

definition band_ranges :: "(int \<times> int) list \<Rightarrow> py_error + (band_name \<times> band) list" where
  "band_ranges metrics =
     (let char_values = sort (map fst metrics);
          word_values = sort (map snd metrics)
      in case quantiles_inclusive char_values 3 of
           Inl e \<Rightarrow> Inl e
         | Inr cq \<Rightarrow>
             (case quantiles_inclusive word_values 3 of
                Inl e \<Rightarrow> Inl e
              | Inr wq \<Rightarrow>
                  (case (cq, wq) of
                     ([char_q1, char_q2], [word_q1, word_q2]) \<Rightarrow>
                       (let char_min = list_min char_values;
                            char_max = list_max char_values;
                            word_min = list_min word_values;
                            word_max = list_max word_values
                        in Inr
                          [(Easy, ((char_min, py_int char_q1), (word_min, py_int word_q1))),
                           (Medium, ((py_int char_q1 + 1, py_int char_q2),
                                     (py_int word_q1 + 1, py_int word_q2))),
                           (Hard, ((py_int char_q2 + 1, char_max + 80),
                                   (py_int word_q2 + 1, word_max + 20)))])
                   | _ \<Rightarrow> Inl ValueError)))"

definition load_baseline_ranges :: "string list \<Rightarrow> py_error + (band_name \<times> band) list" where
  "load_baseline_ranges passages =
     (if passages = [] then Inl ValueError
      else band_ranges (map score_text passages))"

subsection \<open>Assigning a candidate to a band\<close>

record candidate = poem +
  typed_chars :: int
  words :: int
  cand_text :: string

definition in_band :: "candidate \<Rightarrow> band \<Rightarrow> bool" where
  "in_band candidate band =
     (case band of ((char_min, char_max), (word_min, word_max)) \<Rightarrow>
        char_min \<le> typed_chars candidate \<and> typed_chars candidate \<le> char_max
        \<and> word_min \<le> words candidate \<and> words candidate \<le> word_max)"

text \<open>
  The loop \<open>for band_name, band in bands.items()\<close> of \<open>main\<close>: a full band is passed
  over, and the first band left that holds the candidate gets it.
\<close>

fun assign_band ::
  "(band_name \<times> band) list \<Rightarrow> int \<Rightarrow> (band_name \<Rightarrow> candidate list) \<Rightarrow> candidate
   \<Rightarrow> (band_name \<Rightarrow> candidate list)" where
  "assign_band [] per_band shortlisted candidate = shortlisted"
| "assign_band ((band_name, band) # rest) per_band shortlisted candidate =
     (if int (length (shortlisted band_name)) \<ge> per_band
        then assign_band rest per_band shortlisted candidate
      else if in_band candidate band
        then shortlisted (band_name := shortlisted band_name @ [candidate])
      else assign_band rest per_band shortlisted candidate)"

section \<open>Lines, selection and regular expressions\<close>

text \<open>
  \<open>str.splitlines()\<close>: the line boundaries below 128 are line feed, vertical tab, form
  feed, carriage return and the separators 28 to 30; a carriage return followed by a
  line feed is one boundary, and a final boundary opens no further line.
\<close>

definition is_linebreak :: "char \<Rightarrow> bool" where
  "is_linebreak c = (let n = (of_char c :: nat) in (10 \<le> n \<and> n \<le> 13) \<or> (28 \<le> n \<and> n \<le> 30))"

function splitlines :: "string \<Rightarrow> string list" where
  "splitlines s =
     (if s = [] then []
      else (case dropWhile (\<lambda>c. \<not> is_linebreak c) s of
              [] \<Rightarrow> [s]
            | c # r \<Rightarrow>
                takeWhile (\<lambda>c. \<not> is_linebreak c) s
                  # splitlines (case r of
                                  [] \<Rightarrow> []
                                | d # r' \<Rightarrow> if c = CHR 0x0D \<and> d = CHR 0x0A then r' else r)))"
  by pat_completeness auto
termination
proof (relation "measure length", goal_cases)
  case 1
  show ?case by simp
next
  case (2 s c r)
  have "length (dropWhile (\<lambda>c. \<not> is_linebreak c) s) \<le> length s"
    by (rule length_dropWhile_le)
  with 2 show ?case by (auto split: list.splits)
qed

declare splitlines.simps [simp del]

text \<open>\<open>[line.strip() for line in raw_text.splitlines() if line.strip()]\<close>.\<close>

definition block_lines :: "string \<Rightarrow> string list" where
  "block_lines raw_text = filter (\<lambda>line. line \<noteq> []) (map strip (splitlines raw_text))"

text \<open>\<open>sep.join(xs)\<close>.\<close>

fun join :: "string \<Rightarrow> string list \<Rightarrow> string" where
  "join sep [] = []"
| "join sep [x] = x"
| "join sep (x # y # zs) = x @ sep @ join sep (y # zs)"

text \<open>
  \<open>max(xs, key=key)\<close> on a list that is not empty, from its first element on: a later
  element replaces the best one only when its key is strictly greater.
\<close>

fun max_by :: "('a \<Rightarrow> nat) \<Rightarrow> 'a \<Rightarrow> 'a list \<Rightarrow> 'a" where
  "max_by key best [] = best"
| "max_by key best (x # xs) = max_by key (if key x > key best then x else best) xs"

text \<open>
  The regular expressions of \<open>3-build_band_mods.py\<close>, all compiled with
  \<open>re.IGNORECASE\<close>: a literal matches either case. \<open>Star\<close> and \<open>Opt\<close> are greedy.
\<close>

datatype rx =
    Eps
  | Lit char
  | Cls "char \<Rightarrow> bool"
  | Seq rx rx
  | Star rx
  | Opt rx
  | Eos

text \<open>
  A backtracking matcher: the rests of the text after each way of matching a prefix,
  in the order in which \<open>re\<close> tries them, so that the head of the list is the match
  \<open>re\<close> reports. \<open>$\<close> holds at the end of the text and before a final line feed.
\<close>

function rx_match :: "rx \<Rightarrow> string \<Rightarrow> string list" where
  "rx_match Eps s = [s]"
| "rx_match (Lit l) s =
     (case s of [] \<Rightarrow> [] | c # cs \<Rightarrow> if lower_char c = lower_char l then [cs] else [])"
| "rx_match (Cls P) s = (case s of [] \<Rightarrow> [] | c # cs \<Rightarrow> if P c then [cs] else [])"
| "rx_match (Seq a b) s = concat (map (rx_match b) (rx_match a s))"
| "rx_match (Star a) s =
     concat (map (\<lambda>s'. if length s' < length s then rx_match (Star a) s' else [])
                 (rx_match a s)) @ [s]"
| "rx_match (Opt a) s = rx_match a s @ [s]"
| "rx_match Eos s = (if s = [] \<or> s = [CHR 0x0A] then [s] else [])"
  by pat_completeness auto
termination
  by (relation "measures [\<lambda>(r, s). size r, \<lambda>(r, s). length s]") auto

definition lit :: "string \<Rightarrow> rx" where
  "lit s = foldr (\<lambda>c r. Seq (Lit c) r) s Eps"

definition seqs :: "rx list \<Rightarrow> rx" where
  "seqs rs = foldr Seq rs Eps"

definition plus :: "rx \<Rightarrow> rx" where
  "plus r = Seq r (Star r)"

text \<open>\<open>re.match(r, s)\<close> as a truth value.\<close>

definition re_match :: "rx \<Rightarrow> string \<Rightarrow> bool" where
  "re_match r s = (rx_match r s \<noteq> [])"

text \<open>
  \<open>re.sub(r, "", s)\<close>: from left to right, the first match at a position is deleted
  and the search goes on behind it; where nothing matches the character stays.
\<close>

function re_sub_del :: "rx \<Rightarrow> string \<Rightarrow> string" where
  "re_sub_del r s =
     (case rx_match r s of
        rest # _ \<Rightarrow>
          if length rest < length s then re_sub_del r rest
          else (case s of [] \<Rightarrow> [] | c # cs \<Rightarrow> c # re_sub_del r cs)
      | [] \<Rightarrow> (case s of [] \<Rightarrow> [] | c # cs \<Rightarrow> c # re_sub_del r cs))"
  by pat_completeness auto
termination
  by (relation "measure (\<lambda>(r, s). length s)") auto

declare re_sub_del.simps [simp del]

text \<open>The same for a pattern that starts with \<open>^\<close>: only a match at the start counts.\<close>

definition re_sub_del_start :: "rx \<Rightarrow> string \<Rightarrow> string" where
  "re_sub_del_start r s = (case rx_match r s of rest # _ \<Rightarrow> rest | [] \<Rightarrow> s)"

section \<open>Poem text extraction (3-build_band_mods.py)\<close>

text \<open>\<open>^By\s+\<close>.\<close>

definition byline_rx :: rx where
  "byline_rx = seqs [lit ''By'', plus (Cls is_space)]"

text \<open>\<open>\s*Extra\s+Info:.*$\<close>; the dot matches all but the line feed.\<close>

definition extra_info_rx :: rx where
  "extra_info_rx =
     seqs [Star (Cls is_space), lit ''Extra'', plus (Cls is_space), lit ''Info:'',
           Star (Cls (\<lambda>c. c \<noteq> CHR 0x0A)), Eos]"

text \<open>\<open>\s*Printable\s+Page\s+This\s+page\s+viewed\s+\d+\s+times\.?$\<close>.\<close>

definition printable_rx :: rx where
  "printable_rx =
     seqs [Star (Cls is_space), lit ''Printable'', plus (Cls is_space), lit ''Page'',
           plus (Cls is_space), lit ''This'', plus (Cls is_space), lit ''page'',
           plus (Cls is_space), lit ''viewed'', plus (Cls is_space), plus (Cls is_digit),
           plus (Cls is_space), lit ''times'', Opt (Lit CHR ''.''), Eos]"

text \<open>
  \<open>^\s*{title_pattern}\s+By\s+[A-Z][\w'.\-]*(?:\s+[A-Z][\w'.\-]*(?:\s*\([^)]+\))?)*\s+\<close>,
  where the title pattern is the escaped title, a literal. Under \<open>re.IGNORECASE\<close>
  the class \<open>[A-Z]\<close> holds every letter.
\<close>

definition name_char :: "char \<Rightarrow> bool" where
  "name_char c = (is_word c \<or> c = CHR 0x27 \<or> c = CHR ''.'' \<or> c = CHR ''-'')"

definition title_byline_rx :: "string \<Rightarrow> rx" where
  "title_byline_rx title_pattern =
     seqs [Star (Cls is_space), lit title_pattern, plus (Cls is_space), lit ''By'',
           plus (Cls is_space), Cls is_alpha, Star (Cls name_char),
           Star (seqs [plus (Cls is_space), Cls is_alpha, Star (Cls name_char),
                       Opt (seqs [Star (Cls is_space), Lit CHR ''('',
                                  plus (Cls (\<lambda>c. c \<noteq> CHR '')'')), Lit CHR '')''])]),
           plus (Cls is_space)]"

fun clean_loop :: "string \<Rightarrow> string list \<Rightarrow> bool \<Rightarrow> bool \<Rightarrow> string list \<Rightarrow> string list" where
  "clean_loop normalized_title [] dropped_title dropped_byline cleaned = cleaned"
| "clean_loop normalized_title (line # rest) dropped_title dropped_byline cleaned =
     (let text = strip (collapse_ws line) in
      if text = [] then
        clean_loop normalized_title rest dropped_title dropped_byline cleaned
      else if \<not> dropped_title \<and> lower text = normalized_title then
        clean_loop normalized_title rest True dropped_byline cleaned
      else if \<not> dropped_byline \<and> re_match byline_rx text then
        clean_loop normalized_title rest dropped_title True cleaned
      else if contains text ''Sponsored Links'' \<or> startswith text ''Public Domain Poetry'' then
        clean_loop normalized_title rest dropped_title dropped_byline cleaned
      else clean_loop normalized_title rest dropped_title dropped_byline (cleaned @ [text]))"

definition clean_poem_lines :: "string list \<Rightarrow> string \<Rightarrow> string list" where
  "clean_poem_lines block poem_title =
     clean_loop (lower (strip (collapse_ws poem_title))) block False False []"

text \<open>
  The two loops of \<open>extract_poem_text\<close> over \<open>soup.find_all("td")\<close>. The document is
  given by the list of \<open>td.get_text("\n", strip=True)\<close> of its table cells, in
  document order.
\<close>

fun primary_pass :: "string list \<Rightarrow> string list list \<Rightarrow> string list list" where
  "primary_pass [] blocks = blocks"
| "primary_pass (raw_text # tds) blocks =
     (if length raw_text < 250 then primary_pass tds blocks
      else if contains raw_text ''Main Menu'' \<or> contains raw_text ''Sponsored Links''
        then primary_pass tds blocks
      else (let lines = block_lines raw_text in
            if length lines < 6 then primary_pass tds blocks
            else primary_pass tds (blocks @ [lines])))"

fun fallback_pass :: "string list \<Rightarrow> string list list \<Rightarrow> string list list" where
  "fallback_pass [] blocks = blocks"
| "fallback_pass (raw_text # tds) blocks =
     (if length raw_text < 180 then fallback_pass tds blocks
      else (let lines = block_lines raw_text in
            if length lines \<ge> 6 then fallback_pass tds (blocks @ [lines])
            else fallback_pass tds blocks))"

text \<open>The blocks after both passes.\<close>

definition find_blocks :: "string list \<Rightarrow> string list list" where
  "find_blocks tds =
     (let blocks = primary_pass tds [] in
      if blocks = [] then fallback_pass tds [] else blocks)"

definition extract_poem_text :: "string list \<Rightarrow> string \<Rightarrow> string" where
  "extract_poem_text tds poem_title =
     (case find_blocks tds of
        [] \<Rightarrow> []
      | b # bs \<Rightarrow>
          (let best_lines = max_by (\<lambda>block. sum_list (map length block)) b bs;
               cleaned_lines = clean_poem_lines best_lines poem_title;
               text1 = join '' '' cleaned_lines;
               text2 = re_sub_del extra_info_rx text1;
               text3 = re_sub_del printable_rx text2;
               text4 = (if poem_title \<noteq> []
                        then re_sub_del_start
                               (title_byline_rx (strip (collapse_ws poem_title))) text3
                        else text3)
           in strip (collapse_ws text4)))"

text \<open>
  The fallback pass as the specification words it: the filter of the primary pass with
  the length bound lowered to 180.
\<close>

definition fallback_pass_spec :: "string list \<Rightarrow> string list list" where
  "fallback_pass_spec tds =
     map block_lines
       (filter (\<lambda>raw_text. length raw_text \<ge> 180
                  \<and> \<not> contains raw_text ''Main Menu'' \<and> \<not> contains raw_text ''Sponsored Links''
                  \<and> length (block_lines raw_text) \<ge> 6) tds)"

section \<open>Poem text extraction and cached fetch of the classifier (shortlist_poems.py)\<close>

fun candidates_loop :: "string list \<Rightarrow> string list \<Rightarrow> string list" where
  "candidates_loop [] candidates = candidates"
| "candidates_loop (text # tds) candidates =
     (if length text < 250 then candidates_loop tds candidates
      else if contains text ''Main Menu'' \<or> contains text ''Sponsored Links''
        then candidates_loop tds candidates
      else candidates_loop tds (candidates @ [text]))"

definition drop_prefixes :: "string list" where
  "drop_prefixes = [''Public Domain Poetry'', ''By '', ''Read, rate'', ''Main Menu'']"

fun cleaned_loop :: "string list \<Rightarrow> string list \<Rightarrow> string list" where
  "cleaned_loop [] cleaned = cleaned"
| "cleaned_loop (line # rest) cleaned =
     (if list_ex (\<lambda>prefix. startswith line prefix) drop_prefixes
        then cleaned_loop rest cleaned
      else cleaned_loop rest (cleaned @ [line]))"

text \<open>\<open>extract_poem_text\<close> of \<open>shortlist_poems.py\<close>, on the table-cell texts.\<close>

definition shortlist_extract_poem_text :: "string list \<Rightarrow> string" where
  "shortlist_extract_poem_text tds =
     (case candidates_loop tds [] of
        [] \<Rightarrow> []
      | c # cs \<Rightarrow>
          (let best = max_by length c cs;
               best_lines = block_lines best
           in join '' '' (cleaned_loop best_lines [])))"

section \<open>The page cache (3-build_band_mods.py, shortlist_poems.py)\<close>

text \<open>
  Both functions write the page with \<open>Path.write_text\<close> and read it back with
  \<open>Path.read_text\<close>, which open the file in text mode with \<open>newline=None\<close>. On
  writing, every line feed becomes \<open>os.linesep\<close> (a line feed on POSIX, carriage
  return and line feed on Windows). On reading, universal newlines apply: a carriage
  return followed by a line feed, and a carriage return alone, are read as one line
  feed.
\<close>

definition write_newlines :: "string \<Rightarrow> string \<Rightarrow> string" where
  "write_newlines linesep s = concat (map (\<lambda>c. if c = CHR 0x0A then linesep else [c]) s)"

function read_newlines :: "string \<Rightarrow> string" where
  "read_newlines [] = []"
| "read_newlines (c # cs) =
     (if c = CHR 0x0D then
        CHR 0x0A # read_newlines (case cs of
                                    [] \<Rightarrow> []
                                  | d # ds \<Rightarrow> if d = CHR 0x0A then ds else cs)
      else c # read_newlines cs)"
  by pat_completeness auto
termination
  by (relation "measure length") (auto split: list.splits)

text \<open>
  The cache directory maps the path \<open>_cache_path(cache_dir, url)\<close> to the content of
  the file there; the hash that names the file is the argument \<open>cache_path\<close>.
  \<open>requests\<close> lists the URLs asked of the network so far. \<open>net n url\<close> is the body
  the network gives to request number \<open>n\<close>, or \<open>None\<close> when \<open>session.get\<close> or
  \<open>raise_for_status\<close> raises. \<open>write_fails html\<close> is \<open>None\<close> when \<open>write_text\<close>
  succeeds on the text, and the content it leaves in the file when it raises (the file
  is created when it is opened, before anything is written).
\<close>

record 'p world =
  cache :: "'p \<rightharpoonup> string"
  requests :: "string list"

datatype fetch_error = RequestException | WriteError

definition fetch_html_cached ::
  "string \<Rightarrow> (string \<Rightarrow> string option) \<Rightarrow> (string \<Rightarrow> 'p)
   \<Rightarrow> (nat \<Rightarrow> string \<Rightarrow> string option) \<Rightarrow> string \<Rightarrow> 'p world
   \<Rightarrow> (fetch_error + string) \<times> 'p world" where
  "fetch_html_cached linesep write_fails cache_path net url w =
     (let cache_file = cache_path url in
      case cache w cache_file of
        Some stored \<Rightarrow> (Inr (read_newlines stored), w)
      | None \<Rightarrow>
          (case net (length (requests w)) url of
             None \<Rightarrow> (Inl RequestException, w\<lparr>requests := requests w @ [url]\<rparr>)
           | Some html \<Rightarrow>
               (case write_fails html of
                  Some left \<Rightarrow>
                    (Inl WriteError,
                     w\<lparr>requests := requests w @ [url],
                       cache := (cache w)(cache_file \<mapsto> left)\<rparr>)
                | None \<Rightarrow>
                    (Inr html,
                     w\<lparr>requests := requests w @ [url],
                       cache := (cache w)(cache_file \<mapsto> write_newlines linesep html)\<rparr>))))"

text \<open>
  \<open>fetch_candidate_text_cached\<close> of the classifier returns the extracted text;
  \<open>td_texts\<close> gives the table-cell texts of a document.
\<close>

definition fetch_candidate_text_cached ::
  "(string \<Rightarrow> string list) \<Rightarrow> string \<Rightarrow> (string \<Rightarrow> string option) \<Rightarrow> (string \<Rightarrow> 'p)
   \<Rightarrow> (nat \<Rightarrow> string \<Rightarrow> string option) \<Rightarrow> string \<Rightarrow> 'p world
   \<Rightarrow> (fetch_error + string) \<times> 'p world" where
  "fetch_candidate_text_cached td_texts linesep write_fails cache_path net url w =
     (let cache_file = cache_path url in
      case cache w cache_file of
        Some stored \<Rightarrow>
          (Inr (shortlist_extract_poem_text (td_texts (read_newlines stored))), w)
      | None \<Rightarrow>
          (case net (length (requests w)) url of
             None \<Rightarrow> (Inl RequestException, w\<lparr>requests := requests w @ [url]\<rparr>)
           | Some html \<Rightarrow>
               (case write_fails html of
                  Some left \<Rightarrow>
                    (Inl WriteError,
                     w\<lparr>requests := requests w @ [url],
                       cache := (cache w)(cache_file \<mapsto> left)\<rparr>)
                | None \<Rightarrow>
                    (Inr (shortlist_extract_poem_text (td_texts html)),
                     w\<lparr>requests := requests w @ [url],
                       cache := (cache w)(cache_file \<mapsto> write_newlines linesep html)\<rparr>))))"

section \<open>Theorems\<close>

lemma page_loop_all_ok:
  "list_all (page_ok fetch parse) pages \<Longrightarrow>
   page_loop fetch parse delay pages tr =
     Inr (tr @ concat (map (page_events fetch parse delay) pages))"
proof (induction pages arbitrary: tr)
  case Nil
  show ?case by simp
next
  case (Cons page pages)
  from Cons.prems obtain html rows where
    f: "fetch page = Some html" and p: "parse html page = Some rows"
    by (auto simp: page_ok_def split: option.splits)
  from Cons.prems have rest: "list_all (page_ok fetch parse) pages" by simp
  show ?case
    by (simp add: f p Cons.IH [OF rest] page_events_def)
qed



lemma no_retry_after_iff:
  "no_retry_after pyfloat response \<longleftrightarrow> retry_after_wait pyfloat response = None"
  by (auto simp: no_retry_after_def retry_after_wait_def split: option.splits)

text \<open>
  C6, as stated, fails. The header "-3" can be parsed but is no valid retry delay;
  with it the wait is \<open>max(-3, 0) = 0\<close>, below \<open>min(60, b * 2^(n-1)) = 1\<close> for attempt 1
  and base delay 1. And attempt 1025 returns no wait: the product with
  \<open>2 ** 1024\<close> raises OverflowError.
\<close>

theorem C6_header_and_overflow:
  "compute_backoff_seconds id (map_of [(''-3'', - 3)]) (Some (Some ''-3'')) 1 1 (1 / 2) = Inr 0
   \<and> \<not> min 60 (1 * 2 ^ nat (1 - 1)) \<le> (0 :: real)
   \<and> compute_backoff_seconds id (map_of []) None 1025 1 (1 / 2) = Inl OverflowError"
  by (simp add: compute_backoff_seconds_def retry_after_wait_def)

text \<open>
  C6, amended. For an attempt \<open>n\<close> from 1 to 1024 and a base delay \<open>b\<close>, without a
  response, without a Retry-After header, or with one that is empty or that \<open>float\<close>
  rejects, and with a jitter draw inside \<open>[0, J]\<close>, the wait \<open>w\<close> is returned and
  satisfies \<open>E \<le> w \<le> fl(E + J)\<close>, where \<open>E = min(60, fl(b * 2^(n-1)))\<close> and
  \<open>J = fl(fl(0.5 * b) + fl(0.1))\<close> are the quantities of the claim as the code
  computes them in doubles; in exact arithmetic this is the interval of the claim. From
  attempt 1025 on the code raises OverflowError, and a header that \<open>float\<close> parses to
  \<open>v\<close> gives the wait \<open>max(v, 0)\<close>, whatever the sign of \<open>v\<close>.
\<close>

theorem C6_backoff_bounds:
  assumes "rounding fl"
  shows "(1 \<le> attempt \<and> attempt \<le> 1024 \<and> no_retry_after pyfloat response
           \<and> 0 \<le> uniform fl 0 (fl (fl (0.5 * b) + fl 0.1)) u
           \<and> uniform fl 0 (fl (fl (0.5 * b) + fl 0.1)) u \<le> fl (fl (0.5 * b) + fl 0.1)
          \<longrightarrow> (\<exists>w. compute_backoff_seconds fl pyfloat response attempt b u = Inr w
                 \<and> min 60 (fl (b * 2 ^ nat (attempt - 1))) \<le> w
                 \<and> w \<le> fl (min 60 (fl (b * 2 ^ nat (attempt - 1)))
                            + fl (fl (0.5 * b) + fl 0.1))))
       \<and> (1025 \<le> attempt \<and> no_retry_after pyfloat response
          \<longrightarrow> compute_backoff_seconds fl pyfloat response attempt b u = Inl OverflowError)
       \<and> (retry_after \<noteq> [] \<and> pyfloat retry_after = Some v
          \<longrightarrow> compute_backoff_seconds fl pyfloat (Some (Some retry_after)) attempt b u
                = Inr (max v 0))"
proof -
  from assms have m: "mono fl" and i: "\<And>x. fl (fl x) = fl x" and s: "fl 60 = 60"
    by (simp_all add: rounding_def)
  let ?E = "min 60 (fl (b * 2 ^ nat (attempt - 1)))"
  let ?J = "fl (fl (0.5 * b) + fl 0.1)"
  let ?j = "uniform fl 0 ?J u"
  have fe: "fl ?E = ?E"
    by (cases "60 \<le> fl (b * 2 ^ nat (attempt - 1))") (simp_all add: min_def s i)
  have a: "\<exists>w. compute_backoff_seconds fl pyfloat response attempt b u = Inr w
                 \<and> ?E \<le> w \<and> w \<le> fl (?E + ?J)"
    if h: "1 \<le> attempt" "attempt \<le> 1024" "no_retry_after pyfloat response" "0 \<le> ?j" "?j \<le> ?J"
  proof -
    from h(3) have n: "retry_after_wait pyfloat response = None"
      by (simp add: no_retry_after_iff)
    from h(1) have p: "pow2 fl (attempt - 1) = 2 ^ nat (attempt - 1)"
      by (simp add: pow2_def)
    from h(2) have c: "compute_backoff_seconds fl pyfloat response attempt b u = Inr (fl (?E + ?j))"
      by (simp add: compute_backoff_seconds_def n p Let_def)
    from h(4) have "?E \<le> ?E + ?j" by simp
    with m have "fl ?E \<le> fl (?E + ?j)" by (rule monoD)
    then have lo: "?E \<le> fl (?E + ?j)" by (simp only: fe)
    from h(5) have "?E + ?j \<le> ?E + ?J" by simp
    with m have hi: "fl (?E + ?j) \<le> fl (?E + ?J)" by (rule monoD)
    from c lo hi show ?thesis by blast
  qed
  have b: "compute_backoff_seconds fl pyfloat response attempt b u = Inl OverflowError"
    if h: "1025 \<le> attempt" "no_retry_after pyfloat response"
  proof -
    from h(2) have n: "retry_after_wait pyfloat response = None"
      by (simp add: no_retry_after_iff)
    from h(1) show ?thesis by (simp add: compute_backoff_seconds_def n)
  qed
  have c: "compute_backoff_seconds fl pyfloat (Some (Some retry_after)) attempt b u
             = Inr (max v 0)"
    if "retry_after \<noteq> []" "pyfloat retry_after = Some v"
    using that by (simp add: compute_backoff_seconds_def retry_after_wait_def)
  from a b c show ?thesis by blast
qed

theorem C6_backoff_bounds_witness:
  "rounding id
   \<and> (1::int) \<le> 3 \<and> (3::int) \<le> 1024
   \<and> no_retry_after (map_of []) None
   \<and> 0 \<le> uniform id 0 (id (id (0.5 * 1) + id 0.1)) (1 / 2)
   \<and> uniform id 0 (id (id (0.5 * 1) + id 0.1)) (1 / 2) \<le> id (id (0.5 * 1) + id 0.1)
   \<and> compute_backoff_seconds id (map_of []) None 3 1 (1 / 2) = Inr 4.3
   \<and> min 60 (id (1 * 2 ^ nat (3 - 1))) \<le> (4.3 :: real)
   \<and> (4.3 :: real) \<le> id (min 60 (id (1 * 2 ^ nat (3 - 1))) + id (id (0.5 * 1) + id 0.1))
   \<and> compute_backoff_seconds id (map_of []) None 1025 1 (1 / 2) = Inl OverflowError
   \<and> compute_backoff_seconds id (map_of [(''3'', 3)]) (Some (Some ''3'')) 1 1 (1 / 2) = Inr 3"
proof -
  have r: "rounding id" by (simp add: rounding_def mono_def)
  have h: "(1::int) \<le> 3" "(3::int) \<le> 1024" "no_retry_after (map_of []) None"
    "0 \<le> uniform id 0 (id (id (0.5 * 1) + id 0.1)) (1 / 2)"
    "uniform id 0 (id (id (0.5 * 1) + id 0.1)) (1 / 2) \<le> id (id (0.5 * 1) + id 0.1)"
    by (simp_all add: no_retry_after_def uniform_def)
  have v: "compute_backoff_seconds id (map_of []) None 3 1 (1 / 2) = Inr 4.3"
    by (simp add: compute_backoff_seconds_def retry_after_wait_def uniform_def pow2_def)
  from C6_backoff_bounds [OF r, where attempt = 3 and pyfloat = "map_of []" and response = None
         and b = 1 and u = "1 / 2"] h v
  have b: "min 60 (id (1 * 2 ^ nat (3 - 1))) \<le> (4.3 :: real)
     \<and> (4.3 :: real) \<le> id (min 60 (id (1 * 2 ^ nat (3 - 1))) + id (id (0.5 * 1) + id 0.1))"
    by auto
  from C6_backoff_bounds [OF r, where attempt = 1025 and pyfloat = "map_of []" and response = None
         and b = 1 and u = "1 / 2"]
  have o: "compute_backoff_seconds id (map_of []) None 1025 1 (1 / 2) = Inl OverflowError"
    by (simp add: no_retry_after_def)
  from C6_backoff_bounds [OF r, where retry_after = "''3''" and pyfloat = "map_of [(''3'', 3)]"
         and v = 3 and attempt = 1 and b = 1 and u = "1 / 2"]
  have e: "compute_backoff_seconds id (map_of [(''3'', 3)]) (Some (Some ''3'')) 1 1 (1 / 2) = Inr 3"
    by simp
  from r h v b o e show ?thesis by blast
qed

text \<open>
  C5, as stated, fails: harvesting the single page 1 with a delay of half a second
  ends with a sleep after the checkpoint of that final page.
\<close>

theorem C5_sleep_after_final_page:
  "harvest (map_of [(1, ''html'')]) (curry (map_of [((''html'', 1), [''row''])])) (1/2) 1 1
     = Inr [Fetch 1, Append 1 [''row''], SaveCheckpoint 2, Sleep (1/2)]"
  by (simp add: harvest_def upto.simps)

text \<open>
  C5, amended. When every page of \<open>[start, end]\<close> is fetched and parsed, the loop
  performs for each page, in order, the fetch, the append, the checkpoint of the next
  page and, when \<open>delay > 0\<close>, a sleep of \<open>delay\<close> seconds: the sleep follows every
  page, the final one included, and no sleep happens when \<open>delay \<le> 0\<close>.
\<close>

theorem C5_sleep_after_every_page:
  assumes "list_all (page_ok fetch parse) [start_page..end_page]"
  shows "harvest fetch parse delay start_page end_page
           = Inr (concat (map (\<lambda>page.
                   [Fetch page, Append page (the (parse (the (fetch page)) page)),
                    SaveCheckpoint (page + 1)]
                   @ (if delay > 0 then [Sleep delay] else []))
                 [start_page..end_page]))"
proof -
  have "page_events fetch parse delay = (\<lambda>page.
          [Fetch page, Append page (the (parse (the (fetch page)) page)),
           SaveCheckpoint (page + 1)]
          @ (if delay > 0 then [Sleep delay] else []))"
    by (rule ext) (simp add: page_events_def)
  with page_loop_all_ok [OF assms, of delay "[]"] show ?thesis
    by (simp add: harvest_def)
qed

theorem C5_sleep_after_every_page_witness:
  "list_all (page_ok (map_of [(1, ''a''), (2, ''b'')])
                     (curry (map_of [((''a'', 1), [''r1'']), ((''b'', 2), [''r2''])]))) [1..2]
   \<and> harvest (map_of [(1, ''a''), (2, ''b'')])
              (curry (map_of [((''a'', 1), [''r1'']), ((''b'', 2), [''r2''])])) (1/2) 1 2
       = Inr [Fetch 1, Append 1 [''r1''], SaveCheckpoint 2, Sleep (1/2),
              Fetch 2, Append 2 [''r2''], SaveCheckpoint 3, Sleep (1/2)]"
proof -
  have h: "list_all (page_ok (map_of [(1, ''a''), (2, ''b'')])
                     (curry (map_of [((''a'', 1), [''r1'']), ((''b'', 2), [''r2''])]))) [1..2]"
    by (simp add: page_ok_def upto.simps)
  from C5_sleep_after_every_page [OF h, of "1/2"] h show ?thesis
    by (simp add: upto.simps)
qed

lemma sort_reverse_mset: "mset (sort_reverse key xs) = mset xs"
  by (simp add: sort_reverse_def)

lemma sort_reverse_sorted:
  "sorted_wrt (\<lambda>a b. key a \<ge> key b) (sort_reverse key xs)"
proof -
  have "sorted (map key (sort_key key (rev xs)))" by simp
  then have "sorted_wrt (\<lambda>a b. key a \<le> key b) (sort_key key (rev xs))"
    by (simp add: sorted_map)
  then show ?thesis
    by (simp add: sort_reverse_def sorted_wrt_rev)
qed

lemma sort_reverse_stable:
  "filter (\<lambda>x. key x = k) (sort_reverse key xs) = filter (\<lambda>x. key x = k) xs"
proof -
  have "filter (\<lambda>x. key x = k) (sort_key key (rev xs)) = filter (\<lambda>x. key x = k) (rev xs)"
    by (rule sort_key_stable)
  then show ?thesis
    by (simp add: sort_reverse_def rev_filter [symmetric])
qed

lemma pool_key_order:
  "((views b, - lines b) \<le> (views a, - lines a)) = views_desc_lines_asc a b"
  by (auto simp: views_desc_lines_asc_def less_eq_prod_def)

text \<open>
  C4, amended. The pool holds exactly the poems with 8 to 60 lines, ordered by views
  descending with ties broken by lines ascending; poems equal in both keep the order
  of the corpus.
\<close>

theorem C4_pool_order:
  "mset (rough_pool all_poems) = mset (filter (\<lambda>row. 8 \<le> lines row \<and> lines row \<le> 60) all_poems)
   \<and> sorted_wrt views_desc_lines_asc (rough_pool all_poems)
   \<and> filter (\<lambda>row. views row = v \<and> lines row = l) (rough_pool all_poems)
       = filter (\<lambda>row. views row = v \<and> lines row = l \<and> 8 \<le> l \<and> l \<le> 60) all_poems"
proof -
  let ?key = "\<lambda>row. (views row, - lines row)"
  let ?in = "filter (\<lambda>row. 8 \<le> lines row \<and> lines row \<le> 60) all_poems"
  have a: "mset (rough_pool all_poems) = mset ?in"
    by (simp add: rough_pool_def sort_reverse_mset)
  have "sorted_wrt (\<lambda>a b. ?key a \<ge> ?key b) (sort_reverse ?key ?in)"
    by (rule sort_reverse_sorted)
  moreover have "(\<lambda>a b. ?key a \<ge> ?key b) = views_desc_lines_asc"
    by (intro ext) (rule pool_key_order)
  ultimately have b: "sorted_wrt views_desc_lines_asc (rough_pool all_poems)"
    by (simp add: rough_pool_def)
  have "filter (\<lambda>row. ?key row = (v, - l)) (sort_reverse ?key ?in)
          = filter (\<lambda>row. ?key row = (v, - l)) ?in"
    by (rule sort_reverse_stable)
  then have c: "filter (\<lambda>row. views row = v \<and> lines row = l) (rough_pool all_poems)
       = filter (\<lambda>row. views row = v \<and> lines row = l \<and> 8 \<le> l \<and> l \<le> 60) all_poems"
    by (simp add: rough_pool_def) (rule filter_cong, auto)
  from a b c show ?thesis by simp
qed

text \<open>
  C4, as stated, fails: of two poems with equal views and 20 and 10 lines, the pool
  lists the one with 10 lines first, so it is not ordered by lines descending on ties.
\<close>

theorem C4_ties_by_lines_ascending:
  "rough_pool [\<lparr>title = ''A'', link = ''a'', lines = 20, views = 5\<rparr>,
               \<lparr>title = ''B'', link = ''b'', lines = 10, views = 5\<rparr>]
     = [\<lparr>title = ''B'', link = ''b'', lines = 10, views = 5\<rparr>,
        \<lparr>title = ''A'', link = ''a'', lines = 20, views = 5\<rparr>]
   \<and> \<not> sorted_wrt views_desc_lines_desc
         (rough_pool [\<lparr>title = ''A'', link = ''a'', lines = 20, views = 5\<rparr>,
                      \<lparr>title = ''B'', link = ''b'', lines = 10, views = 5\<rparr>])"
  by (simp add: rough_pool_def sort_reverse_def views_desc_lines_desc_def)



lemma filter_filter_link:
  "filter (\<lambda>q. link q \<noteq> l) (filter (\<lambda>q. link q \<notin> seen) ps)
     = filter (\<lambda>q. link q \<notin> insert l seen) ps"
  by (induction ps) auto








lemma quantiles_inclusive_3:
  assumes "2 \<le> length data"
  shows "quantiles_inclusive data 3 =
     Inr [of_int (data ! ((length data - 1) div 3) * int (3 - (length data - 1) mod 3)
                  + data ! ((length data - 1) div 3 + 1) * int ((length data - 1) mod 3)) / 3,
          of_int (data ! ((2 * (length data - 1)) div 3) * int (3 - (2 * (length data - 1)) mod 3)
                  + data ! ((2 * (length data - 1)) div 3 + 1) * int ((2 * (length data - 1)) mod 3)) / 3]"
proof -
  have u: "[1..<3] = [1, 2::nat]" by (simp add: upt_rec)
  from assms have n: "\<not> length data < 2" by simp
  have three: "(of_int (int 3) :: real) = 3" by simp
  show ?thesis
    unfolding quantiles_inclusive_def Let_def u
    by (simp only: n if_False list.map three mult_1)
qed

lemma interp_bounds:
  fixes a b :: int and d :: nat
  assumes "a \<le> b" and "d < 3"
  shows "3 * a \<le> a * int (3 - d) + b * int d" and "a * int (3 - d) + b * int d \<le> 3 * b"
proof -
  from assms(2) have e: "int (3 - d) = 3 - int d" by simp
  have "a * int (3 - d) + b * int d = 3 * a + (b - a) * int d"
    by (simp add: e algebra_simps)
  moreover have "0 \<le> (b - a) * int d" using assms(1) by simp
  ultimately show "3 * a \<le> a * int (3 - d) + b * int d" by simp
  have "a * int (3 - d) + b * int d = 3 * b - (b - a) * (3 - int d)"
    by (simp add: e algebra_simps)
  moreover have "0 \<le> (b - a) * (3 - int d)" using assms by simp
  ultimately show "a * int (3 - d) + b * int d \<le> 3 * b" by simp
qed

lemma interp_same_cell:
  fixes a b :: int and d1 d2 :: nat
  assumes "a \<le> b" and "d1 \<le> d2" and "d2 < 3"
  shows "a * int (3 - d1) + b * int d1 \<le> a * int (3 - d2) + b * int d2"
proof -
  from assms have e: "int (3 - d1) = 3 - int d1" "int (3 - d2) = 3 - int d2" by simp_all
  have "(a * int (3 - d2) + b * int d2) - (a * int (3 - d1) + b * int d1)
          = (b - a) * (int d2 - int d1)"
    by (simp add: e algebra_simps)
  moreover have "0 \<le> (b - a) * (int d2 - int d1)" using assms by simp
  ultimately show ?thesis by simp
qed

lemma tertile_numerators_mono:
  fixes data :: "int list"
  assumes s: "sorted data" and l: "2 \<le> length data"
  defines "m \<equiv> length data - 1"
  shows "data ! (m div 3) * int (3 - m mod 3) + data ! (m div 3 + 1) * int (m mod 3)
       \<le> data ! ((2 * m) div 3) * int (3 - (2 * m) mod 3)
           + data ! ((2 * m) div 3 + 1) * int ((2 * m) mod 3)"
proof -
  let ?j1 = "m div 3" and ?d1 = "m mod 3" and ?j2 = "(2 * m) div 3" and ?d2 = "(2 * m) mod 3"
  from l have m1: "1 \<le> m" and len: "length data = m + 1" by (simp_all add: m_def)
  have j12: "?j1 \<le> ?j2" by (rule div_le_mono) simp
  have j2m: "?j2 + 1 \<le> m" using m1 by presburger
  have d: "?d1 < 3" "?d2 < 3" by simp_all
  have c1: "data ! ?j1 \<le> data ! (?j1 + 1)"
    using s j12 j2m len by (intro sorted_nth_mono) simp_all
  have c2: "data ! ?j2 \<le> data ! (?j2 + 1)"
    using s j2m len by (intro sorted_nth_mono) simp_all
  show ?thesis
  proof (cases "?j1 = ?j2")
    case True
    have "3 * ?j1 + ?d1 = m" "3 * ?j2 + ?d2 = 2 * m" by simp_all
    with True have "?d1 \<le> ?d2" by linarith
    from interp_same_cell [OF c2 this d(2)] show ?thesis by (simp only: True)
  next
    case False
    with j12 have lt: "?j1 + 1 \<le> ?j2" by simp
    have mid: "data ! (?j1 + 1) \<le> data ! ?j2"
      using s lt j2m len by (intro sorted_nth_mono) simp_all
    have "data ! ?j1 * int (3 - ?d1) + data ! (?j1 + 1) * int ?d1 \<le> 3 * data ! (?j1 + 1)"
      by (rule interp_bounds(2) [OF c1 d(1)])
    also have "\<dots> \<le> 3 * data ! ?j2" using mid by simp
    also have "\<dots> \<le> data ! ?j2 * int (3 - ?d2) + data ! (?j2 + 1) * int ?d2"
      by (rule interp_bounds(1) [OF c2 d(2)])
    finally show ?thesis .
  qed
qed

lemma py_int_mono: "q1 \<le> q2 \<Longrightarrow> py_int q1 \<le> py_int q2"
proof -
  assume le: "q1 \<le> q2"
  show ?thesis
  proof (cases "0 \<le> q1")
    case True
    with le show ?thesis by (simp add: py_int_def floor_mono)
  next
    case n1: False
    show ?thesis
    proof (cases "0 \<le> q2")
      case True
      from n1 have "\<lceil>q1\<rceil> \<le> 0" by (simp add: ceiling_le_zero)
      moreover from True have "0 \<le> \<lfloor>q2\<rfloor>" by simp
      ultimately have "\<lceil>q1\<rceil> \<le> \<lfloor>q2\<rfloor>" by (rule order_trans)
      with n1 True show ?thesis by (simp add: py_int_def)
    next
      case False
      with n1 le show ?thesis by (simp add: py_int_def ceiling_mono)
    qed
  qed
qed

lemma tertiles_ordered:
  assumes "sorted data" and "2 \<le> length data"
  shows "\<exists>q1 q2. quantiles_inclusive data 3 = Inr [q1, q2] \<and> py_int q1 \<le> py_int q2"
proof -
  let ?m = "length data - 1"
  let ?n1 = "data ! (?m div 3) * int (3 - ?m mod 3) + data ! (?m div 3 + 1) * int (?m mod 3)"
  let ?n2 = "data ! ((2 * ?m) div 3) * int (3 - (2 * ?m) mod 3)
               + data ! ((2 * ?m) div 3 + 1) * int ((2 * ?m) mod 3)"
  have q: "quantiles_inclusive data 3 = Inr [of_int ?n1 / 3, of_int ?n2 / 3]"
    by (rule quantiles_inclusive_3 [OF assms(2)])
  have "?n1 \<le> ?n2" by (rule tertile_numerators_mono [OF assms])
  then have "(of_int ?n1 :: real) \<le> of_int ?n2" by (simp only: of_int_le_iff)
  then have "(of_int ?n1 :: real) / 3 \<le> of_int ?n2 / 3" by (rule divide_right_mono) simp
  then have "py_int (of_int ?n1 / 3) \<le> py_int (of_int ?n2 / 3)" by (rule py_int_mono)
  with q show ?thesis by blast
qed

lemma band_ranges_shape:
  assumes "2 \<le> length metrics"
  shows "\<exists>cq1 cq2 wq1 wq2.
           py_int cq1 \<le> py_int cq2 \<and> py_int wq1 \<le> py_int wq2
           \<and> band_ranges metrics = Inr
               [(Easy, ((list_min (sort (map fst metrics)), py_int cq1),
                        (list_min (sort (map snd metrics)), py_int wq1))),
                (Medium, ((py_int cq1 + 1, py_int cq2), (py_int wq1 + 1, py_int wq2))),
                (Hard, ((py_int cq2 + 1, list_max (sort (map fst metrics)) + 80),
                        (py_int wq2 + 1, list_max (sort (map snd metrics)) + 20)))]"
proof -
  from assms have "2 \<le> length (sort (map fst metrics))" by simp
  from tertiles_ordered [OF sorted_sort this] obtain cq1 cq2 where
    c: "quantiles_inclusive (sort (map fst metrics)) 3 = Inr [cq1, cq2]" "py_int cq1 \<le> py_int cq2"
    by blast
  from assms have "2 \<le> length (sort (map snd metrics))" by simp
  from tertiles_ordered [OF sorted_sort this] obtain wq1 wq2 where
    w: "quantiles_inclusive (sort (map snd metrics)) 3 = Inr [wq1, wq2]" "py_int wq1 \<le> py_int wq2"
    by blast
  have "band_ranges metrics = Inr
               [(Easy, ((list_min (sort (map fst metrics)), py_int cq1),
                        (list_min (sort (map snd metrics)), py_int wq1))),
                (Medium, ((py_int cq1 + 1, py_int cq2), (py_int wq1 + 1, py_int wq2))),
                (Hard, ((py_int cq2 + 1, list_max (sort (map fst metrics)) + 80),
                        (py_int wq2 + 1, list_max (sort (map snd metrics)) + 20)))]"
    by (simp add: band_ranges_def Let_def c(1) w(1))
  with c(2) w(2) show ?thesis by blast
qed

lemma assign_band_find:
  "assign_band bs per_band shortlisted c =
     (case find (\<lambda>(n, b). \<not> int (length (shortlisted n)) \<ge> per_band \<and> in_band c b) bs of
        None \<Rightarrow> shortlisted
      | Some (n, b) \<Rightarrow> shortlisted (n := shortlisted n @ [c]))"
  by (induction bs per_band shortlisted c rule: assign_band.induct) auto

lemma find_unique_perm:
  assumes u: "\<And>x y. x \<in> set xs \<Longrightarrow> y \<in> set xs \<Longrightarrow> P x \<Longrightarrow> P y \<Longrightarrow> x = y"
    and s: "set ys = set xs"
  shows "find P ys = find P xs"
proof (cases "find P xs")
  case None
  then have "\<forall>x \<in> set xs. \<not> P x" by (simp add: find_None_iff)
  with s have "find P ys = None" by (simp add: find_None_iff)
  with None show ?thesis by simp
next
  case (Some x)
  then have x: "x \<in> set xs" "P x"
    by (auto simp: find_Some_iff)
  from x s have "\<exists>y \<in> set ys. P y" by blast
  then obtain y where y: "find P ys = Some y" by (cases "find P ys") (auto simp: find_None_iff)
  then have "y \<in> set ys" "P y" by (auto simp: find_Some_iff)
  with s x u have "y = x" by blast
  with y Some show ?thesis by simp
qed

text \<open>
  C10. For a baseline of at least two passages the bands are computed, and their
  character intervals are pairwise disjoint: the upper bound of easy lies strictly
  below the lower bound of medium, that of medium strictly below the lower bound of
  hard (and so that of easy below hard's); the same holds for the word intervals. Hence
  no candidate lies in two bands, and the band a candidate is assigned to does not
  depend on the order in which the bands are tried.
\<close>

theorem C10_bands_disjoint:
  assumes "2 \<le> length passages"
  shows "\<exists>bands e m h.
      load_baseline_ranges passages = Inr bands
    \<and> bands = [(Easy, e), (Medium, m), (Hard, h)]
    \<and> snd (fst e) < fst (fst m) \<and> snd (fst m) < fst (fst h) \<and> snd (fst e) < fst (fst h)
    \<and> snd (snd e) < fst (snd m) \<and> snd (snd m) < fst (snd h) \<and> snd (snd e) < fst (snd h)
    \<and> (\<forall>c. \<not> (in_band c e \<and> in_band c m) \<and> \<not> (in_band c m \<and> in_band c h)
            \<and> \<not> (in_band c e \<and> in_band c h))
    \<and> (\<forall>order per_band shortlisted c.
          set order = set bands \<longrightarrow>
          assign_band order per_band shortlisted c = assign_band bands per_band shortlisted c)"
proof -
  from assms have ne: "passages \<noteq> []" by auto
  from assms have "2 \<le> length (map score_text passages)" by simp
  from band_ranges_shape [OF this] obtain e m h where
    b: "band_ranges (map score_text passages) = Inr [(Easy, e), (Medium, m), (Hard, h)]"
    and o: "snd (fst e) < fst (fst m)" "snd (fst m) < fst (fst h)" "snd (fst e) < fst (fst h)"
           "snd (snd e) < fst (snd m)" "snd (snd m) < fst (snd h)" "snd (snd e) < fst (snd h)"
    by fastforce
  let ?bands = "[(Easy, e), (Medium, m), (Hard, h)]"
  have l: "load_baseline_ranges passages = Inr ?bands"
    by (simp add: load_baseline_ranges_def ne b)
  have x: "\<not> (in_band c e \<and> in_band c m)" "\<not> (in_band c m \<and> in_band c h)"
          "\<not> (in_band c e \<and> in_band c h)" for c
    using o by (auto simp: in_band_def split: prod.splits)
  have a: "assign_band order per_band shortlisted c = assign_band ?bands per_band shortlisted c"
    if s: "set order = set ?bands" for order per_band shortlisted c
  proof -
    let ?P = "\<lambda>(n, b). \<not> int (length (shortlisted n)) \<ge> per_band \<and> in_band c b"
    have "find ?P order = find ?P ?bands"
    proof (rule find_unique_perm [OF _ s])
      fix p q assume "p \<in> set ?bands" "q \<in> set ?bands" "?P p" "?P q"
      then show "p = q" using x [of c] by auto
    qed
    then show ?thesis by (simp only: assign_band_find)
  qed
  from l o x a show ?thesis by blast
qed

lemma baseline_example:
  "load_baseline_ranges [''ab, cd!'', ''a  b  c'', ''hello world  again'']
     = Inr [(Easy, ((5, 5), (2, 2))), (Medium, ((6, 9), (3, 3))), (Hard, ((10, 97), (4, 23)))]"
  by (simp add: load_baseline_ranges_def band_ranges_def quantiles_inclusive_def py_int_def
        Let_def upt_rec score_text_def normalize_for_difficulty_def strip_def
        is_word_def is_space_def is_alpha_def is_digit_def)

theorem C10_bands_disjoint_witness:
  "2 \<le> length [''ab, cd!'', ''a  b  c'', ''hello world  again'']
   \<and> load_baseline_ranges [''ab, cd!'', ''a  b  c'', ''hello world  again'']
       = Inr [(Easy, ((5, 5), (2, 2))), (Medium, ((6, 9), (3, 3))), (Hard, ((10, 97), (4, 23)))]
   \<and> \<not> (in_band \<lparr>title = ''T'', link = ''u'', lines = 9, views = 1,
                   typed_chars = 5, words = 2, cand_text = ''ab cd''\<rparr> ((5, 5), (2, 2))
         \<and> in_band \<lparr>title = ''T'', link = ''u'', lines = 9, views = 1,
                   typed_chars = 5, words = 2, cand_text = ''ab cd''\<rparr> ((6, 9), (3, 3)))"
proof -
  have h: "2 \<le> length [''ab, cd!'', ''a  b  c'', ''hello world  again'']" by simp
  from C10_bands_disjoint [OF h] obtain bands e m h where
    b: "load_baseline_ranges [''ab, cd!'', ''a  b  c'', ''hello world  again''] = Inr bands"
       "bands = [(Easy, e), (Medium, m), (Hard, h)]"
    and x: "\<forall>c. \<not> (in_band c e \<and> in_band c m) \<and> \<not> (in_band c m \<and> in_band c h)
            \<and> \<not> (in_band c e \<and> in_band c h)"
    by blast
  from b baseline_example have "e = ((5, 5), (2, 2))" "m = ((6, 9), (3, 3))" by simp_all
  with x h baseline_example show ?thesis by blast
qed

text \<open>
  C1, as stated, fails: for the typed-character values 50, 60, 70, 80, 90, 100 the
  tertiles are 200/3 and 250/3, not 70 and 90, and the character ranges are
  [50, 66], [67, 83] and [84, 180].
\<close>

theorem C1_tertiles_of_example:
  "quantiles_inclusive [50, 60, 70, 80, 90, 100] 3 = Inr [200 / 3, 250 / 3]
   \<and> band_ranges [(50, 10), (60, 12), (70, 14), (80, 16), (90, 18), (100, 20)]
       = Inr [(Easy, ((50, 66), (10, 13))), (Medium, ((67, 83), (14, 16))),
              (Hard, ((84, 180), (17, 40)))]"
  by (simp add: band_ranges_def quantiles_inclusive_def py_int_def Let_def upt_rec)

text \<open>
  C1, amended. For every baseline whose typed-character values are 50, 60, 70, 80,
  90, 100, the tertiles under inclusive interpolation are 200/3 and 250/3, truncated
  to 66 and 83, and the character ranges are easy = [50, 66], medium = [67, 83] and
  hard = [84, 180], the last bound being the maximum plus the slack of 80.
\<close>

theorem C1_baseline_char_ranges:
  assumes "sort (map fst metrics) = [50, 60, 70, 80, 90, 100]"
  shows "quantiles_inclusive (sort (map fst metrics)) 3 = Inr [200 / 3, 250 / 3]
       \<and> (\<exists>we wm wh. band_ranges metrics
             = Inr [(Easy, ((50, 66), we)), (Medium, ((67, 83), wm)), (Hard, ((84, 180), wh))])"
proof -
  have q: "quantiles_inclusive (sort (map fst metrics)) 3 = Inr [200 / 3, 250 / 3]"
    by (simp add: assms quantiles_inclusive_def Let_def upt_rec)
  have "length (sort (map fst metrics)) = 6" by (simp only: assms) simp
  then have "2 \<le> length (sort (map snd metrics))" by simp
  from quantiles_inclusive_3 [OF this] obtain wq1 wq2 where
    w: "quantiles_inclusive (sort (map snd metrics)) 3 = Inr [wq1, wq2]" by blast
  have "band_ranges metrics
          = Inr [(Easy, ((50, 66), (list_min (sort (map snd metrics)), py_int wq1))),
                 (Medium, ((67, 83), (py_int wq1 + 1, py_int wq2))),
                 (Hard, ((84, 180), (py_int wq2 + 1, list_max (sort (map snd metrics)) + 20)))]"
    unfolding band_ranges_def Let_def q w
    by (simp add: assms py_int_def)
  with q show ?thesis by blast
qed

theorem C1_baseline_char_ranges_witness:
  "sort (map fst [(100, 20), (60, 12), (70, 14), (80, 16), (90, 18), (50, 10::int)])
     = [50, 60, 70, 80, 90, 100::int]
   \<and> band_ranges [(100, 20), (60, 12), (70, 14), (80, 16), (90, 18), (50, 10)]
       = Inr [(Easy, ((50, 66), (10, 13))), (Medium, ((67, 83), (14, 16))),
              (Hard, ((84, 180), (17, 40)))]"
proof -
  have h: "sort (map fst [(100, 20), (60, 12), (70, 14), (80, 16), (90, 18), (50, 10::int)])
     = [50, 60, 70, 80, 90, 100::int]" by simp
  have v: "band_ranges [(100, 20), (60, 12), (70, 14), (80, 16), (90, 18), (50, 10)]
       = Inr [(Easy, ((50, 66), (10, 13))), (Medium, ((67, 83), (14, 16))),
              (Hard, ((84, 180), (17, 40)))]"
    by (simp add: band_ranges_def quantiles_inclusive_def py_int_def Let_def upt_rec)
  from C1_baseline_char_ranges [OF h] v h show ?thesis by simp
qed

lemma cached_fetch_facts:
  "(cache w (cache_path url) = Some stored \<longrightarrow>
      fetch_html_cached linesep write_fails cache_path net url w = (Inr (read_newlines stored), w))
   \<and> (fetch_html_cached linesep write_fails cache_path net url w = (Inr c, w1)
        \<and> cache w (cache_path url) = None \<longrightarrow>
      requests w1 = requests w @ [url]
      \<and> fetch_html_cached linesep write_fails cache_path net url w1
          = (Inr (read_newlines (write_newlines linesep c)), w1))
   \<and> (fetch_html_cached linesep write_fails cache_path net url w = (Inl RequestException, w1)
        \<longrightarrow> cache w1 = cache w)"
  by (auto simp: fetch_html_cached_def Let_def split: option.splits)

lemma html_two_calls:
  "fetch_html_cached ''\<newline>'' (map_of []) id
      (curry (map_of [((0, ''u''), [CHR ''a'', CHR 0x0D, CHR 0x0A, CHR ''b''])])) ''u''
      \<lparr>cache = map_of [], requests = []\<rparr>
     = (Inr [CHR ''a'', CHR 0x0D, CHR 0x0A, CHR ''b''],
        \<lparr>cache = map_of [(''u'', [CHR ''a'', CHR 0x0D, CHR 0x0A, CHR ''b''])],
          requests = [''u'']\<rparr>)
   \<and> fetch_html_cached ''\<newline>'' (map_of []) id
      (curry (map_of [((0, ''u''), [CHR ''a'', CHR 0x0D, CHR 0x0A, CHR ''b''])])) ''u''
      \<lparr>cache = map_of [(''u'', [CHR ''a'', CHR 0x0D, CHR 0x0A, CHR ''b''])],
        requests = [''u'']\<rparr>
     = (Inr [CHR ''a'', CHR 0x0A, CHR ''b''],
        \<lparr>cache = map_of [(''u'', [CHR ''a'', CHR 0x0D, CHR 0x0A, CHR ''b''])],
          requests = [''u'']\<rparr>)
   \<and> fetch_html_cached [CHR 0x0D, CHR 0x0A] (map_of []) id
      (curry (map_of [((0, ''u''), [CHR ''a'', CHR 0x0D, CHR 0x0A, CHR ''b''])])) ''u''
      \<lparr>cache = map_of [], requests = []\<rparr>
     = (Inr [CHR ''a'', CHR 0x0D, CHR 0x0A, CHR ''b''],
        \<lparr>cache = map_of [(''u'', [CHR ''a'', CHR 0x0D, CHR 0x0D, CHR 0x0A, CHR ''b''])],
          requests = [''u'']\<rparr>)
   \<and> fetch_html_cached [CHR 0x0D, CHR 0x0A] (map_of []) id
      (curry (map_of [((0, ''u''), [CHR ''a'', CHR 0x0D, CHR 0x0A, CHR ''b''])])) ''u''
      \<lparr>cache = map_of [(''u'', [CHR ''a'', CHR 0x0D, CHR 0x0D, CHR 0x0A, CHR ''b''])],
        requests = [''u'']\<rparr>
     = (Inr [CHR ''a'', CHR 0x0A, CHR 0x0A, CHR ''b''],
        \<lparr>cache = map_of [(''u'', [CHR ''a'', CHR 0x0D, CHR 0x0D, CHR 0x0A, CHR ''b''])],
          requests = [''u'']\<rparr>)"
  by (simp add: fetch_html_cached_def write_newlines_def Let_def)

lemma page_length:
  "length (''Once upon a midnight dreary, while I pondered, weak and weary, Over many a quaint and curious volume of forgotten lore, While I nodded, nearly napping, suddenly there came a tapping,'' @ CHR 0x0D # CHR 0x0A # ''As of some one gently rapping, rapping at my chamber door of oak.x'') = 250"
  by simp

lemma page_markers:
  "\<not> contains (''Once upon a midnight dreary, while I pondered, weak and weary, Over many a quaint and curious volume of forgotten lore, While I nodded, nearly napping, suddenly there came a tapping,'' @ CHR 0x0D # CHR 0x0A # ''As of some one gently rapping, rapping at my chamber door of oak.x'') ''Main Menu''"
  "\<not> contains (''Once upon a midnight dreary, while I pondered, weak and weary, Over many a quaint and curious volume of forgotten lore, While I nodded, nearly napping, suddenly there came a tapping,'' @ CHR 0x0D # CHR 0x0A # ''As of some one gently rapping, rapping at my chamber door of oak.x'') ''Sponsored Links''"
  by simp_all

lemma page_lines:
  "block_lines (''Once upon a midnight dreary, while I pondered, weak and weary, Over many a quaint and curious volume of forgotten lore, While I nodded, nearly napping, suddenly there came a tapping,'' @ CHR 0x0D # CHR 0x0A # ''As of some one gently rapping, rapping at my chamber door of oak.x'')
     = [''Once upon a midnight dreary, while I pondered, weak and weary, Over many a quaint and curious volume of forgotten lore, While I nodded, nearly napping, suddenly there came a tapping,'',
        ''As of some one gently rapping, rapping at my chamber door of oak.x'']"
  by (simp add: block_lines_def splitlines.simps strip_def is_linebreak_def is_space_def)

lemma page_read:
  "read_newlines (write_newlines ''\<newline>'' (''Once upon a midnight dreary, while I pondered, weak and weary, Over many a quaint and curious volume of forgotten lore, While I nodded, nearly napping, suddenly there came a tapping,'' @ CHR 0x0D # CHR 0x0A # ''As of some one gently rapping, rapping at my chamber door of oak.x''))
     = (''Once upon a midnight dreary, while I pondered, weak and weary, Over many a quaint and curious volume of forgotten lore, While I nodded, nearly napping, suddenly there came a tapping,'' @ CHR 0x0A # ''As of some one gently rapping, rapping at my chamber door of oak.x'')"
  by (simp add: write_newlines_def)

lemma page_read_length:
  "length (''Once upon a midnight dreary, while I pondered, weak and weary, Over many a quaint and curious volume of forgotten lore, While I nodded, nearly napping, suddenly there came a tapping,'' @ CHR 0x0A # ''As of some one gently rapping, rapping at my chamber door of oak.x'') = 249"
  by simp

lemma page_extract_first:
  "shortlist_extract_poem_text [(''Once upon a midnight dreary, while I pondered, weak and weary, Over many a quaint and curious volume of forgotten lore, While I nodded, nearly napping, suddenly there came a tapping,'' @ CHR 0x0D # CHR 0x0A # ''As of some one gently rapping, rapping at my chamber door of oak.x'')]
     = ''Once upon a midnight dreary, while I pondered, weak and weary, Over many a quaint and curious volume of forgotten lore, While I nodded, nearly napping, suddenly there came a tapping, As of some one gently rapping, rapping at my chamber door of oak.x''"
  apply (simp only: shortlist_extract_poem_text_def candidates_loop.simps
           Let_def page_length page_markers)
  apply (simp only: rel_simps simp_thms if_True if_False append_Nil list.case max_by.simps
           page_lines)
  apply (simp add: drop_prefixes_def)
  done

lemma page_extract_second:
  "shortlist_extract_poem_text [(''Once upon a midnight dreary, while I pondered, weak and weary, Over many a quaint and curious volume of forgotten lore, While I nodded, nearly napping, suddenly there came a tapping,'' @ CHR 0x0A # ''As of some one gently rapping, rapping at my chamber door of oak.x'')] = []"
  by (simp only: shortlist_extract_poem_text_def candidates_loop.simps page_read_length) simp

lemma page_write:
  "write_newlines ''\<newline>'' (''Once upon a midnight dreary, while I pondered, weak and weary, Over many a quaint and curious volume of forgotten lore, While I nodded, nearly napping, suddenly there came a tapping,'' @ CHR 0x0D # CHR 0x0A # ''As of some one gently rapping, rapping at my chamber door of oak.x'')
     = (''Once upon a midnight dreary, while I pondered, weak and weary, Over many a quaint and curious volume of forgotten lore, While I nodded, nearly napping, suddenly there came a tapping,'' @ CHR 0x0D # CHR 0x0A # ''As of some one gently rapping, rapping at my chamber door of oak.x'')"
  by (simp add: write_newlines_def)

lemma page_read_back:
  "read_newlines (''Once upon a midnight dreary, while I pondered, weak and weary, Over many a quaint and curious volume of forgotten lore, While I nodded, nearly napping, suddenly there came a tapping,'' @ CHR 0x0D # CHR 0x0A # ''As of some one gently rapping, rapping at my chamber door of oak.x'')
     = (''Once upon a midnight dreary, while I pondered, weak and weary, Over many a quaint and curious volume of forgotten lore, While I nodded, nearly napping, suddenly there came a tapping,'' @ CHR 0x0A # ''As of some one gently rapping, rapping at my chamber door of oak.x'')"
  by simp

lemma candidate_two_calls:
  assumes "write_newlines linesep h = s"
    and "shortlist_extract_poem_text (td_texts h) = t1"
    and "shortlist_extract_poem_text (td_texts (read_newlines s)) = t2"
  shows "fetch_candidate_text_cached td_texts linesep (map_of []) id
           (curry (map_of [((0, u), h)])) u \<lparr>cache = map_of [], requests = []\<rparr>
         = (Inr t1, \<lparr>cache = map_of [(u, s)], requests = [u]\<rparr>)
       \<and> fetch_candidate_text_cached td_texts linesep (map_of []) id
           (curry (map_of [((0, u), h)])) u \<lparr>cache = map_of [(u, s)], requests = [u]\<rparr>
         = (Inr t2, \<lparr>cache = map_of [(u, s)], requests = [u]\<rparr>)"
  by (simp add: fetch_candidate_text_cached_def Let_def assms)

text \<open>
  C7 does not hold of the code: the two calls need not return identical content. A
  page whose body holds a carriage return is returned as fetched by the first call,
  which issues the one request, and read back with its newlines translated by the
  second: the body a, carriage return, line feed, b comes back as a, line feed, b
  where \<open>os.linesep\<close> is a line feed, and as a, line feed, line feed, b where it is
  carriage return and line feed. For \<open>fetch_candidate_text_cached\<close>, a page of 250
  characters with one such line break is extracted by the first call; read back it
  has 249 characters, below the bound of 250, and the second call returns the empty
  text.
\<close>

theorem C7_second_call_differs:
  "(fetch_html_cached ''\<newline>'' (map_of []) id
      (curry (map_of [((0, ''u''), [CHR ''a'', CHR 0x0D, CHR 0x0A, CHR ''b''])])) ''u''
      \<lparr>cache = map_of [], requests = []\<rparr>
     = (Inr [CHR ''a'', CHR 0x0D, CHR 0x0A, CHR ''b''],
        \<lparr>cache = map_of [(''u'', [CHR ''a'', CHR 0x0D, CHR 0x0A, CHR ''b''])],
          requests = [''u'']\<rparr>)
   \<and> fetch_html_cached ''\<newline>'' (map_of []) id
      (curry (map_of [((0, ''u''), [CHR ''a'', CHR 0x0D, CHR 0x0A, CHR ''b''])])) ''u''
      \<lparr>cache = map_of [(''u'', [CHR ''a'', CHR 0x0D, CHR 0x0A, CHR ''b''])],
        requests = [''u'']\<rparr>
     = (Inr [CHR ''a'', CHR 0x0A, CHR ''b''],
        \<lparr>cache = map_of [(''u'', [CHR ''a'', CHR 0x0D, CHR 0x0A, CHR ''b''])],
          requests = [''u'']\<rparr>)
   \<and> fetch_html_cached [CHR 0x0D, CHR 0x0A] (map_of []) id
      (curry (map_of [((0, ''u''), [CHR ''a'', CHR 0x0D, CHR 0x0A, CHR ''b''])])) ''u''
      \<lparr>cache = map_of [], requests = []\<rparr>
     = (Inr [CHR ''a'', CHR 0x0D, CHR 0x0A, CHR ''b''],
        \<lparr>cache = map_of [(''u'', [CHR ''a'', CHR 0x0D, CHR 0x0D, CHR 0x0A, CHR ''b''])],
          requests = [''u'']\<rparr>)
   \<and> fetch_html_cached [CHR 0x0D, CHR 0x0A] (map_of []) id
      (curry (map_of [((0, ''u''), [CHR ''a'', CHR 0x0D, CHR 0x0A, CHR ''b''])])) ''u''
      \<lparr>cache = map_of [(''u'', [CHR ''a'', CHR 0x0D, CHR 0x0D, CHR 0x0A, CHR ''b''])],
        requests = [''u'']\<rparr>
     = (Inr [CHR ''a'', CHR 0x0A, CHR 0x0A, CHR ''b''],
        \<lparr>cache = map_of [(''u'', [CHR ''a'', CHR 0x0D, CHR 0x0D, CHR 0x0A, CHR ''b''])],
          requests = [''u'']\<rparr>))
   \<and> fetch_candidate_text_cached (\<lambda>html. [html]) ''\<newline>'' (map_of []) id
      (curry (map_of [((0, ''u''), (''Once upon a midnight dreary, while I pondered, weak and weary, Over many a quaint and curious volume of forgotten lore, While I nodded, nearly napping, suddenly there came a tapping,'' @ CHR 0x0D # CHR 0x0A # ''As of some one gently rapping, rapping at my chamber door of oak.x''))])) ''u''
      \<lparr>cache = map_of [], requests = []\<rparr>
     = (Inr ''Once upon a midnight dreary, while I pondered, weak and weary, Over many a quaint and curious volume of forgotten lore, While I nodded, nearly napping, suddenly there came a tapping, As of some one gently rapping, rapping at my chamber door of oak.x'',
        \<lparr>cache = map_of [(''u'', (''Once upon a midnight dreary, while I pondered, weak and weary, Over many a quaint and curious volume of forgotten lore, While I nodded, nearly napping, suddenly there came a tapping,'' @ CHR 0x0D # CHR 0x0A # ''As of some one gently rapping, rapping at my chamber door of oak.x''))],
          requests = [''u'']\<rparr>)
   \<and> fetch_candidate_text_cached (\<lambda>html. [html]) ''\<newline>'' (map_of []) id
      (curry (map_of [((0, ''u''), (''Once upon a midnight dreary, while I pondered, weak and weary, Over many a quaint and curious volume of forgotten lore, While I nodded, nearly napping, suddenly there came a tapping,'' @ CHR 0x0D # CHR 0x0A # ''As of some one gently rapping, rapping at my chamber door of oak.x''))])) ''u''
      \<lparr>cache = map_of [(''u'', (''Once upon a midnight dreary, while I pondered, weak and weary, Over many a quaint and curious volume of forgotten lore, While I nodded, nearly napping, suddenly there came a tapping,'' @ CHR 0x0D # CHR 0x0A # ''As of some one gently rapping, rapping at my chamber door of oak.x''))],
        requests = [''u'']\<rparr>
     = (Inr [],
        \<lparr>cache = map_of [(''u'', (''Once upon a midnight dreary, while I pondered, weak and weary, Over many a quaint and curious volume of forgotten lore, While I nodded, nearly napping, suddenly there came a tapping,'' @ CHR 0x0D # CHR 0x0A # ''As of some one gently rapping, rapping at my chamber door of oak.x''))],
          requests = [''u'']\<rparr>)"
proof -
  have e2: "shortlist_extract_poem_text
              [read_newlines (''Once upon a midnight dreary, while I pondered, weak and weary, Over many a quaint and curious volume of forgotten lore, While I nodded, nearly napping, suddenly there came a tapping,'' @ CHR 0x0D # CHR 0x0A # ''As of some one gently rapping, rapping at my chamber door of oak.x'')] = []"
    by (simp only: page_read_back page_extract_second)
  from html_two_calls
       candidate_two_calls [where td_texts = "\<lambda>html. [html]", OF page_write page_extract_first e2]
  show ?thesis by (rule conjI)
qed

lemma menu_lines:
  "block_lines ''Main Menu\<newline>Home of the public domain poetry archive\<newline>Browse the poets by their last names here\<newline>Browse the poems by their first lines here\<newline>Read the help pages before you write to us\<newline>All the texts on this site are free to read''
   = [''Main Menu'', ''Home of the public domain poetry archive'',
        ''Browse the poets by their last names here'',
        ''Browse the poems by their first lines here'',
        ''Read the help pages before you write to us'',
        ''All the texts on this site are free to read'']"
  by (simp add: block_lines_def splitlines.simps strip_def is_linebreak_def is_space_def)

lemma menu_length:
  "length ''Main Menu\<newline>Home of the public domain poetry archive\<newline>Browse the poets by their last names here\<newline>Browse the poems by their first lines here\<newline>Read the help pages before you write to us\<newline>All the texts on this site are free to read'' = 222"
  by simp

lemma menu_marker:
  "contains ''Main Menu\<newline>Home of the public domain poetry archive\<newline>Browse the poets by their last names here\<newline>Browse the poems by their first lines here\<newline>Read the help pages before you write to us\<newline>All the texts on this site are free to read'' ''Main Menu''"
  by simp

lemma menu_primary:
  "primary_pass [''Main Menu\<newline>Home of the public domain poetry archive\<newline>Browse the poets by their last names here\<newline>Browse the poems by their first lines here\<newline>Read the help pages before you write to us\<newline>All the texts on this site are free to read''] [] = []"
  by (simp only: primary_pass.simps menu_length) simp

lemma menu_fallback:
  "fallback_pass [''Main Menu\<newline>Home of the public domain poetry archive\<newline>Browse the poets by their last names here\<newline>Browse the poems by their first lines here\<newline>Read the help pages before you write to us\<newline>All the texts on this site are free to read''] []
   = [[''Main Menu'', ''Home of the public domain poetry archive'',
        ''Browse the poets by their last names here'',
        ''Browse the poems by their first lines here'',
        ''Read the help pages before you write to us'',
        ''All the texts on this site are free to read'']]"
  by (simp only: fallback_pass.simps menu_length menu_lines Let_def) simp

lemma menu_fallback_spec:
  "fallback_pass_spec [''Main Menu\<newline>Home of the public domain poetry archive\<newline>Browse the poets by their last names here\<newline>Browse the poems by their first lines here\<newline>Read the help pages before you write to us\<newline>All the texts on this site are free to read''] = []"
  by (simp only: fallback_pass_spec_def filter.simps menu_marker) simp

lemma menu_find_blocks:
  "find_blocks [''Main Menu\<newline>Home of the public domain poetry archive\<newline>Browse the poets by their last names here\<newline>Browse the poems by their first lines here\<newline>Read the help pages before you write to us\<newline>All the texts on this site are free to read'']
   = [[''Main Menu'', ''Home of the public domain poetry archive'',
        ''Browse the poets by their last names here'',
        ''Browse the poems by their first lines here'',
        ''Read the help pages before you write to us'',
        ''All the texts on this site are free to read'']]"
  by (simp only: find_blocks_def menu_primary menu_fallback Let_def if_True simp_thms)

lemma menu_clean:
  "clean_poem_lines
     [''Main Menu'', ''Home of the public domain poetry archive'',
        ''Browse the poets by their last names here'',
        ''Browse the poems by their first lines here'',
        ''Read the help pages before you write to us'',
        ''All the texts on this site are free to read''] ''The Raven''
   = [''Main Menu'', ''Home of the public domain poetry archive'',
        ''Browse the poets by their last names here'',
        ''Browse the poems by their first lines here'',
        ''Read the help pages before you write to us'',
        ''All the texts on this site are free to read'']"
  by (simp add: clean_poem_lines_def strip_def is_space_def lower_def lower_char_def is_upper_def
        re_match_def byline_rx_def seqs_def lit_def plus_def)

text \<open>
  C3 does not hold of the code: the fallback pass has no marker exclusion. A table
  cell of 222 characters and six lines that contains "Main Menu" is passed over by
  the primary pass and kept by the fallback pass, so it is the block the extractor
  works on, and the cleaning of lines leaves its "Main Menu" line in place; the
  fallback filter of the specification, with the marker exclusion, keeps nothing.
\<close>

theorem C3_fallback_keeps_marker_blocks:
  "primary_pass [''Main Menu\<newline>Home of the public domain poetry archive\<newline>Browse the poets by their last names here\<newline>Browse the poems by their first lines here\<newline>Read the help pages before you write to us\<newline>All the texts on this site are free to read''] [] = []
   \<and> fallback_pass [''Main Menu\<newline>Home of the public domain poetry archive\<newline>Browse the poets by their last names here\<newline>Browse the poems by their first lines here\<newline>Read the help pages before you write to us\<newline>All the texts on this site are free to read''] []
       = [[''Main Menu'', ''Home of the public domain poetry archive'',
        ''Browse the poets by their last names here'',
        ''Browse the poems by their first lines here'',
        ''Read the help pages before you write to us'',
        ''All the texts on this site are free to read'']]
   \<and> find_blocks [''Main Menu\<newline>Home of the public domain poetry archive\<newline>Browse the poets by their last names here\<newline>Browse the poems by their first lines here\<newline>Read the help pages before you write to us\<newline>All the texts on this site are free to read'']
       = [[''Main Menu'', ''Home of the public domain poetry archive'',
        ''Browse the poets by their last names here'',
        ''Browse the poems by their first lines here'',
        ''Read the help pages before you write to us'',
        ''All the texts on this site are free to read'']]
   \<and> clean_poem_lines
         [''Main Menu'', ''Home of the public domain poetry archive'',
        ''Browse the poets by their last names here'',
        ''Browse the poems by their first lines here'',
        ''Read the help pages before you write to us'',
        ''All the texts on this site are free to read''] ''The Raven''
       = [''Main Menu'', ''Home of the public domain poetry archive'',
        ''Browse the poets by their last names here'',
        ''Browse the poems by their first lines here'',
        ''Read the help pages before you write to us'',
        ''All the texts on this site are free to read'']
   \<and> fallback_pass_spec [''Main Menu\<newline>Home of the public domain poetry archive\<newline>Browse the poets by their last names here\<newline>Browse the poems by their first lines here\<newline>Read the help pages before you write to us\<newline>All the texts on this site are free to read''] = []"
  using menu_primary menu_fallback menu_find_blocks menu_clean menu_fallback_spec
  by (intro conjI)

lemma candidates_loop_eq:
  "candidates_loop tds candidates =
     candidates @ filter (\<lambda>t. length t \<ge> 250 \<and> \<not> contains t ''Main Menu''
                              \<and> \<not> contains t ''Sponsored Links'') tds"
  by (induction tds arbitrary: candidates) simp_all

lemma cleaned_loop_eq:
  "cleaned_loop ls cleaned =
     cleaned @ filter (\<lambda>line. \<not> list_ex (\<lambda>prefix. startswith line prefix) drop_prefixes) ls"
  by (induction ls arbitrary: cleaned) simp_all

lemma max_by_ge: "key b \<le> key (max_by key b xs)"
proof (induction xs arbitrary: b)
  case Nil
  show ?case by simp
next
  case (Cons x xs)
  have "key b \<le> key (if key x > key b then x else b)" by simp
  also have "\<dots> \<le> key (max_by key (if key x > key b then x else b) xs)" by (rule Cons.IH)
  finally show ?case by simp
qed

lemma max_by_split:
  "\<exists>pre post. b # xs = pre @ max_by key b xs # post
     \<and> (\<forall>t \<in> set pre. key t < key (max_by key b xs))
     \<and> (\<forall>t \<in> set post. key t \<le> key (max_by key b xs))"
proof (induction xs arbitrary: b)
  case Nil
  have "[b] = [] @ max_by key b [] # []
     \<and> (\<forall>t \<in> set []. key t < key (max_by key b []))
     \<and> (\<forall>t \<in> set []. key t \<le> key (max_by key b []))" by simp
  then show ?case by blast
next
  case (Cons x xs)
  show ?case
  proof (cases "key x > key b")
    case True
    from Cons.IH [of x] obtain pre post where
      s: "x # xs = pre @ max_by key x xs # post"
      and p: "\<forall>t \<in> set pre. key t < key (max_by key x xs)"
      and q: "\<forall>t \<in> set post. key t \<le> key (max_by key x xs)" by blast
    from True have m: "max_by key b (x # xs) = max_by key x xs" by simp
    from True max_by_ge [of key x xs] have kb: "key b < key (max_by key x xs)" by simp
    from s have s': "b # x # xs = (b # pre) @ max_by key x xs # post" by simp
    from p kb have p': "\<forall>t \<in> set (b # pre). key t < key (max_by key x xs)" by simp
    from s' p' q show ?thesis unfolding m by blast
  next
    case False
    from Cons.IH [of b] obtain pre post where
      s: "b # xs = pre @ max_by key b xs # post"
      and p: "\<forall>t \<in> set pre. key t < key (max_by key b xs)"
      and q: "\<forall>t \<in> set post. key t \<le> key (max_by key b xs)" by blast
    from False have m: "max_by key b (x # xs) = max_by key b xs" by simp
    from False max_by_ge [of key b xs] have xk: "key x \<le> key (max_by key b xs)" by simp
    show ?thesis
    proof (cases pre)
      case Nil
      from s have "b # xs = max_by key b xs # post" unfolding Nil by (simp only: append_Nil)
      then have e: "max_by key b xs = b" and po: "post = xs" by (metis list.inject)+
      have "b # x # xs = [] @ max_by key b xs # (x # xs)" by (simp only: e append_Nil)
      moreover from q xk have "\<forall>t \<in> set (x # xs). key t \<le> key (max_by key b xs)"
        unfolding po by simp
      moreover have "\<forall>t \<in> set []. key t < key (max_by key b xs)" by simp
      ultimately show ?thesis unfolding m by blast
    next
      case (Cons b' pre')
      from s have "b # xs = b' # (pre' @ max_by key b xs # post)"
        unfolding Cons by (simp only: append_Cons)
      then have b': "b' = b" and r: "xs = pre' @ max_by key b xs # post"
        by (metis list.inject)+
      from p Cons b' have "key b < key (max_by key b xs)" by simp
      with False have "key x < key (max_by key b xs)" by simp
      with p Cons have "\<forall>t \<in> set (b # x # pre'). key t < key (max_by key b xs)" by (simp add: b')
      moreover from r have "b # x # xs = (b # x # pre') @ max_by key b xs # post" by simp
      ultimately show ?thesis unfolding m using q by blast
    qed
  qed
qed

text \<open>
  C2, amended. The extraction of the classifier is its own, simpler algorithm. Its
  candidates are the table cells of at least 250 characters that contain neither
  "Main Menu" nor "Sponsored Links"; there is no line-count test and no fallback pass.
  Without a candidate the result is empty. Otherwise the candidate of greatest raw
  length is taken, the first one among equals, and the result is its stripped
  non-blank lines, without those that start with "Public Domain Poetry", "By ",
  "Read, rate" or "Main Menu", joined by single spaces.
\<close>

theorem C2_classifier_extraction:
  "(filter (\<lambda>t. length t \<ge> 250 \<and> \<not> contains t ''Main Menu''
                  \<and> \<not> contains t ''Sponsored Links'') tds = []
       \<longrightarrow> shortlist_extract_poem_text tds = [])
   \<and> (filter (\<lambda>t. length t \<ge> 250 \<and> \<not> contains t ''Main Menu''
                  \<and> \<not> contains t ''Sponsored Links'') tds \<noteq> []
       \<longrightarrow> (\<exists>pre best post.
              filter (\<lambda>t. length t \<ge> 250 \<and> \<not> contains t ''Main Menu''
                            \<and> \<not> contains t ''Sponsored Links'') tds = pre @ best # post
            \<and> (\<forall>t \<in> set pre. length t < length best)
            \<and> (\<forall>t \<in> set post. length t \<le> length best)
            \<and> shortlist_extract_poem_text tds =
                 join '' '' (filter (\<lambda>line. \<not> (\<exists>prefix \<in> set drop_prefixes. startswith line prefix))
                               (block_lines best))))"
proof -
  let ?c = "filter (\<lambda>t. length t \<ge> 250 \<and> \<not> contains t ''Main Menu''
                  \<and> \<not> contains t ''Sponsored Links'') tds"
  have c: "candidates_loop tds [] = ?c" by (simp add: candidates_loop_eq)
  have a: "?c = [] \<longrightarrow> shortlist_extract_poem_text tds = []"
    by (simp add: shortlist_extract_poem_text_def c)
  have b: "\<exists>pre best post. ?c = pre @ best # post
            \<and> (\<forall>t \<in> set pre. length t < length best)
            \<and> (\<forall>t \<in> set post. length t \<le> length best)
            \<and> shortlist_extract_poem_text tds =
                 join '' '' (filter (\<lambda>line. \<not> (\<exists>prefix \<in> set drop_prefixes. startswith line prefix))
                               (block_lines best))" if ne: "?c \<noteq> []"
  proof -
    from ne obtain x xs where x: "?c = x # xs" by (cases ?c) auto
    from max_by_split [of x xs length] obtain pre post where
      s: "x # xs = pre @ max_by length x xs # post"
      and p: "\<forall>t \<in> set pre. length t < length (max_by length x xs)"
      and q: "\<forall>t \<in> set post. length t \<le> length (max_by length x xs)" by blast
    have "shortlist_extract_poem_text tds =
            join '' '' (filter (\<lambda>line. \<not> (\<exists>prefix \<in> set drop_prefixes. startswith line prefix))
                          (block_lines (max_by length x xs)))"
      unfolding shortlist_extract_poem_text_def c x
      by (simp add: Let_def cleaned_loop_eq list_ex_iff)
    with s p q x have "?c = pre @ max_by length x xs # post
            \<and> (\<forall>t \<in> set pre. length t < length (max_by length x xs))
            \<and> (\<forall>t \<in> set post. length t \<le> length (max_by length x xs))
            \<and> shortlist_extract_poem_text tds =
                 join '' '' (filter (\<lambda>line. \<not> (\<exists>prefix \<in> set drop_prefixes. startswith line prefix))
                               (block_lines (max_by length x xs)))" by simp
    then show ?thesis by blast
  qed
  from a b show ?thesis by blast
qed

lemma stanza_lines:
  "block_lines ''Once upon a midnight dreary, while I pondered, weak and weary,\<newline>Over many a quaint and curious volume of forgotten lore,\<newline>While I nodded, nearly napping, suddenly there came a tapping,\<newline>As of some one gently rapping, rapping at my chamber door.\<newline>Only this and nothing more.''
   = [''Once upon a midnight dreary, while I pondered, weak and weary,'',
      ''Over many a quaint and curious volume of forgotten lore,'',
      ''While I nodded, nearly napping, suddenly there came a tapping,'',
      ''As of some one gently rapping, rapping at my chamber door.'',
      ''Only this and nothing more.'']"
  by (simp add: block_lines_def splitlines.simps strip_def is_linebreak_def is_space_def)

lemma stanza_length:
  "length ''Once upon a midnight dreary, while I pondered, weak and weary,\<newline>Over many a quaint and curious volume of forgotten lore,\<newline>While I nodded, nearly napping, suddenly there came a tapping,\<newline>As of some one gently rapping, rapping at my chamber door.\<newline>Only this and nothing more.'' = 269"
  by simp

lemma stanza_markers:
  "\<not> contains ''Once upon a midnight dreary, while I pondered, weak and weary,\<newline>Over many a quaint and curious volume of forgotten lore,\<newline>While I nodded, nearly napping, suddenly there came a tapping,\<newline>As of some one gently rapping, rapping at my chamber door.\<newline>Only this and nothing more.'' ''Main Menu''"
  "\<not> contains ''Once upon a midnight dreary, while I pondered, weak and weary,\<newline>Over many a quaint and curious volume of forgotten lore,\<newline>While I nodded, nearly napping, suddenly there came a tapping,\<newline>As of some one gently rapping, rapping at my chamber door.\<newline>Only this and nothing more.'' ''Sponsored Links''"
  by simp_all

lemma stanza_extract:
  "extract_poem_text [''Once upon a midnight dreary, while I pondered, weak and weary,\<newline>Over many a quaint and curious volume of forgotten lore,\<newline>While I nodded, nearly napping, suddenly there came a tapping,\<newline>As of some one gently rapping, rapping at my chamber door.\<newline>Only this and nothing more.''] ''The Raven'' = []"
  apply (simp only: extract_poem_text_def find_blocks_def primary_pass.simps fallback_pass.simps
           Let_def stanza_length stanza_markers stanza_lines)
  apply simp
  done

lemma stanza_shortlist:
  "shortlist_extract_poem_text [''Once upon a midnight dreary, while I pondered, weak and weary,\<newline>Over many a quaint and curious volume of forgotten lore,\<newline>While I nodded, nearly napping, suddenly there came a tapping,\<newline>As of some one gently rapping, rapping at my chamber door.\<newline>Only this and nothing more.'']
   = ''Once upon a midnight dreary, while I pondered, weak and weary, Over many a quaint and curious volume of forgotten lore, While I nodded, nearly napping, suddenly there came a tapping, As of some one gently rapping, rapping at my chamber door. Only this and nothing more.''"
  apply (simp only: shortlist_extract_poem_text_def candidates_loop.simps
           Let_def stanza_length stanza_markers)
  apply (simp add: stanza_lines drop_prefixes_def)
  done

text \<open>
  C2, as stated, fails: for a document whose only table cell is a stanza of five
  lines and 269 characters, the extraction of the classifier returns the five lines
  joined by spaces, while the Poem Text Extractor of \<open>3-build_band_mods.py\<close> finds
  no block with six lines and returns the empty text.
\<close>

theorem C2_extractors_differ:
  "shortlist_extract_poem_text
     [''Once upon a midnight dreary, while I pondered, weak and weary,\<newline>Over many a quaint and curious volume of forgotten lore,\<newline>While I nodded, nearly napping, suddenly there came a tapping,\<newline>As of some one gently rapping, rapping at my chamber door.\<newline>Only this and nothing more.'']
     = ''Once upon a midnight dreary, while I pondered, weak and weary, Over many a quaint and curious volume of forgotten lore, While I nodded, nearly napping, suddenly there came a tapping, As of some one gently rapping, rapping at my chamber door. Only this and nothing more.''
   \<and> extract_poem_text
     [''Once upon a midnight dreary, while I pondered, weak and weary,\<newline>Over many a quaint and curious volume of forgotten lore,\<newline>While I nodded, nearly napping, suddenly there came a tapping,\<newline>As of some one gently rapping, rapping at my chamber door.\<newline>Only this and nothing more.'']
     ''The Raven'' = []"
  using stanza_shortlist stanza_extract by (rule conjI)

theorem C2_classifier_extraction_witness:
  "filter (\<lambda>t. length t \<ge> 250 \<and> \<not> contains t ''Main Menu'' \<and> \<not> contains t ''Sponsored Links'')
     [''Once upon a midnight dreary, while I pondered, weak and weary,\<newline>Over many a quaint and curious volume of forgotten lore,\<newline>While I nodded, nearly napping, suddenly there came a tapping,\<newline>As of some one gently rapping, rapping at my chamber door.\<newline>Only this and nothing more.'']
     = [''Once upon a midnight dreary, while I pondered, weak and weary,\<newline>Over many a quaint and curious volume of forgotten lore,\<newline>While I nodded, nearly napping, suddenly there came a tapping,\<newline>As of some one gently rapping, rapping at my chamber door.\<newline>Only this and nothing more.'']
   \<and> shortlist_extract_poem_text
     [''Once upon a midnight dreary, while I pondered, weak and weary,\<newline>Over many a quaint and curious volume of forgotten lore,\<newline>While I nodded, nearly napping, suddenly there came a tapping,\<newline>As of some one gently rapping, rapping at my chamber door.\<newline>Only this and nothing more.'']
     = ''Once upon a midnight dreary, while I pondered, weak and weary, Over many a quaint and curious volume of forgotten lore, While I nodded, nearly napping, suddenly there came a tapping, As of some one gently rapping, rapping at my chamber door. Only this and nothing more.''"
  (is "filter ?q [?t] = [?t] \<and> shortlist_extract_poem_text [?t] = ?o")
proof -
  have f: "filter ?q [?t] = [?t]"
    by (simp only: filter.simps stanza_length stanza_markers) simp
  then have ne: "filter ?q [?t] \<noteq> []" by simp
  from C2_classifier_extraction [of "[?t]"] ne obtain pre best post where
    s: "filter ?q [?t] = pre @ best # post"
    and r: "shortlist_extract_poem_text [?t] =
              join '' '' (filter (\<lambda>line. \<not> (\<exists>prefix \<in> set drop_prefixes. startswith line prefix))
                            (block_lines best))"
    by blast
  from s have "[?t] = pre @ best # post" unfolding f .
  then have "best = ?t" by (cases pre) simp_all
  with r have "shortlist_extract_poem_text [?t] =
              join '' '' (filter (\<lambda>line. \<not> (\<exists>prefix \<in> set drop_prefixes. startswith line prefix))
                            (block_lines ?t))" by simp
  then have "shortlist_extract_poem_text [?t] = ?o"
    by (simp add: stanza_lines drop_prefixes_def)
  with f show ?thesis by (rule conjI)
qed

end
